theory Spec2Isabelle
  imports Complex_Main
begin

text \<open>
  The offline writes of StoryApp: the connectivity monitor, the list of pending stories
  kept in AsyncStorage and its synchronisation with the remote store
  (src/services/offlineService.ts), and the submission of a story
  (\<^verbatim>\<open>createStory\<close> in src/services/storyService.ts). Line numbers are those of the
  file named in the heading of each section.
\<close>

section \<open>Data model (src/types/index.ts)\<close>

text \<open>
  A number as a caller may give it in a story: a finite number (the real it stands for,
  with the negative zero apart), or one of the three values that are not finite.
\<close>

datatype number = Finite real | NegZero | NaN | Infinity | NegInfinity

text \<open>
  A number as \<^verbatim>\<open>JSON.parse\<close> gives it back from what \<^verbatim>\<open>JSON.stringify\<close> wrote:
  a finite number, or \<^verbatim>\<open>null\<close>.
\<close>

datatype json_number = JNumber real | JNull

text \<open>
  A property declared \<^verbatim>\<open>location?: {...} | null\<close>. A property that is absent and a
  property that is \<^verbatim>\<open>undefined\<close> are not told apart.
\<close>

datatype 'a optional = Undefined | Null | Present 'a

text \<open>
  \<^verbatim>\<open>StoryCreateData\<close> and the object of its \<^verbatim>\<open>location\<close>, over the type of their
  numbers: \<open>number\<close> for the data a caller gives, \<open>json_number\<close> for the data
  read back from the storage. The field \<^verbatim>\<open>timestamp\<close> of the location is called
  \<open>location_timestamp\<close> here.
\<close>

record 'n LocationData =
  latitude :: 'n
  longitude :: 'n
  accuracy :: 'n
  location_timestamp :: 'n

record 'n StoryCreateData =
  title :: string
  content :: string
  category :: string
  categoryId :: string
  location :: "'n LocationData optional"

text \<open>
  A pending story as \<^verbatim>\<open>PendingStory\<close> declares it. The field \<^verbatim>\<open>id\<close> is called
  \<open>pid\<close> here (\<open>id\<close> is the identity function of HOL). The story data of a stored
  entry is carried and never interpreted by the offline service, so it is a type
  parameter; \<open>addPendingStory\<close>, which stores the data of a caller, fixes it.
  \<^verbatim>\<open>retryCount\<close> is a JavaScript number that is only ever set to 0, incremented and
  compared: an \<open>int\<close>.
\<close>

record 'p PendingStory =
  pid :: string
  storyData :: 'p
  timestamp :: nat
  retryCount :: int

record NetworkStatus =
  isConnected :: bool
  isInternetReachable :: bool

text \<open>\<^verbatim>\<open>ServiceError\<close>: the \<^verbatim>\<open>details\<close> field (the caught error) is left out.\<close>

record ServiceError =
  code :: string
  message :: string

text \<open>
  What the code reads of an error it catches: \<^verbatim>\<open>error.code\<close> and
  \<^verbatim>\<open>error.message\<close>, each of which may be undefined.
\<close>

record JsError =
  err_code :: "string option"
  err_message :: "string option"

text \<open>The outcome of an awaited promise.\<close>

datatype 'a settled = Fulfilled 'a | Rejected JsError

text \<open>
  What the code reads of a NetInfo state: \<^verbatim>\<open>isConnected\<close> and
  \<^verbatim>\<open>isInternetReachable\<close>, each \<^verbatim>\<open>boolean | null\<close>.
\<close>

record NetInfoState =
  ni_isConnected :: "bool option"
  ni_isInternetReachable :: "bool option"

definition MAX_RETRY_COUNT :: int where
  "MAX_RETRY_COUNT = 3"

text \<open>\<^verbatim>\<open>x || false\<close> and \<^verbatim>\<open>x ?? false\<close> on a \<^verbatim>\<open>boolean | null\<close>.\<close>

definition or_false :: "bool option \<Rightarrow> bool" where
  "or_false x = (case x of None \<Rightarrow> False | Some b \<Rightarrow> (if b then b else False))"

definition nullish_false :: "bool option \<Rightarrow> bool" where
  "nullish_false x = (case x of None \<Rightarrow> False | Some b \<Rightarrow> b)"

section \<open>The service and its environment (src/services/offlineService.ts)\<close>

text \<open>
  JavaScript runs one callback at a time; an \<^verbatim>\<open>async\<close> function runs without
  interruption from one \<^verbatim>\<open>await\<close> to the next, and between two awaits of one call
  the continuations of other calls may run. The model keeps this granularity: the state
  of the service is a record, every piece of code between two awaits is a function on
  it, and a run is a list of events, each saying which pending await settles next and
  whether it is fulfilled or rejected.

  A listener is known to the service by the identity of its function only
  (\<^verbatim>\<open>indexOf\<close>), so a listener is a number here. Listeners are taken not to call
  back into the service while they are being notified.

  The storage holds the list that \<^verbatim>\<open>JSON.parse\<close> gives back from the text stored
  (line 115); \<open>None\<close> is a key that is absent. A list that was read from the storage is
  written back as it is: \<^verbatim>\<open>JSON.stringify\<close> followed by \<^verbatim>\<open>JSON.parse\<close> changes
  nothing in a value that \<^verbatim>\<open>JSON.parse\<close> gave. The data of a new story come from a
  caller, and what is read back of them is \<open>json_storyData\<close> below. AsyncStorage is
  taken to give back the text it was given, and a rejected \<^verbatim>\<open>setItem\<close> to leave the
  stored value as it was.
\<close>

type_synonym listener = nat

text \<open>
  The callback of \<^verbatim>\<open>pendingStories.map\<close> (lines 213-255) for one entry, at each
  of its awaits. The entry is the one of the list that the drain read.
\<close>

datatype 'p callback =
    AwaitAddDoc "'p PendingStory"
      \<comment> \<open>line 238: \<^verbatim>\<open>addDoc\<close> was called\<close>
  | AwaitRemoveGet "'p PendingStory"
      \<comment> \<open>lines 218 and 241, at line 165: \<^verbatim>\<open>removePendingStory\<close> reads the list\<close>
  | AwaitRemoveSet "'p PendingStory" "'p PendingStory list"
      \<comment> \<open>line 167: \<^verbatim>\<open>removePendingStory\<close> writes the filtered list\<close>
  | AwaitCatchGet "'p PendingStory"
      \<comment> \<open>line 248: the catch block reads the list\<close>
  | AwaitCatchSet "'p PendingStory" "'p PendingStory list"
      \<comment> \<open>line 252: the catch block writes the list with the count incremented\<close>
  | Settled
      \<comment> \<open>the callback's promise is fulfilled or rejected\<close>

text \<open>One call of \<^verbatim>\<open>syncPendingStories\<close> (lines 202-268).\<close>

datatype 'p drain =
    AwaitList
      \<comment> \<open>line 204: the list is being read\<close>
  | AwaitAll "'p callback list"
      \<comment> \<open>line 257: \<^verbatim>\<open>Promise.allSettled\<close> over the callbacks\<close>
  | Returned
      \<comment> \<open>line 208: nothing was pending\<close>
  | Threw ServiceError
      \<comment> \<open>line 262\<close>

record 'p service =
  svc_isConnected :: bool
    \<comment> \<open>\<^verbatim>\<open>this.isConnected\<close>\<close>
  networkListeners :: "listener list"
  delivered :: "(listener \<times> NetworkStatus) list"
    \<comment> \<open>every call made to a listener, oldest first\<close>
  storage :: "'p PendingStory list option"
    \<comment> \<open>the value of AsyncStorage under \<^verbatim>\<open>PENDING_STORIES_KEY\<close>\<close>
  addDoc_calls :: "'p PendingStory list"
    \<comment> \<open>the entries for which a drain called \<^verbatim>\<open>addDoc\<close>, oldest first\<close>
  drains :: "'p drain list"
    \<comment> \<open>the calls of \<^verbatim>\<open>syncPendingStories\<close> made so far\<close>

text \<open>The service when its constructor returns (lines 18-23), over a given storage.\<close>

definition initial :: "'p PendingStory list option \<Rightarrow> 'p service" where
  "initial stored =
     \<lparr>svc_isConnected = True, networkListeners = [], delivered = [],
      storage = stored, addDoc_calls = [], drains = []\<rparr>"

section \<open>Connectivity (lines 28-105)\<close>

text \<open>The status object built at lines 58-61 and 74-77.\<close>

definition current_status :: "'p service \<Rightarrow> NetworkStatus" where
  "current_status sys =
     \<lparr>isConnected = svc_isConnected sys, isInternetReachable = svc_isConnected sys\<rparr>"

text \<open>\<^verbatim>\<open>notifyNetworkListeners\<close> (lines 56-63).\<close>

definition notifyNetworkListeners :: "'p service \<Rightarrow> 'p service" where
  "notifyNetworkListeners sys =
     sys\<lparr>delivered := delivered sys @
           map (\<lambda>listener. (listener, current_status sys)) (networkListeners sys)\<rparr>"

text \<open>\<^verbatim>\<open>subscribeToNetworkStatus\<close> (lines 70-78), up to the return of the handle.\<close>

definition subscribeToNetworkStatus :: "listener \<Rightarrow> 'p service \<Rightarrow> 'p service" where
  "subscribeToNetworkStatus listener sys =
     (let sys1 = sys\<lparr>networkListeners := networkListeners sys @ [listener]\<rparr>
      in sys1\<lparr>delivered := delivered sys1 @ [(listener, current_status sys1)]\<rparr>)"

text \<open>\<^verbatim>\<open>Array.prototype.indexOf\<close>: the first index, or -1.\<close>

fun indexOf :: "'a list \<Rightarrow> 'a \<Rightarrow> int" where
  "indexOf [] x = - 1"
| "indexOf (y # ys) x =
     (if y = x then 0 else (let i = indexOf ys x in if i = - 1 then - 1 else i + 1))"

text \<open>\<^verbatim>\<open>xs.splice(index, 1)\<close> for an index in range.\<close>

definition splice1 :: "nat \<Rightarrow> 'a list \<Rightarrow> 'a list" where
  "splice1 index xs = take index xs @ drop (Suc index) xs"

text \<open>The handle returned by \<^verbatim>\<open>subscribeToNetworkStatus\<close> (lines 79-84), called.\<close>

definition unsubscribe :: "listener \<Rightarrow> 'p service \<Rightarrow> 'p service" where
  "unsubscribe listener sys =
     (let index = indexOf (networkListeners sys) listener
      in if index > - 1
         then sys\<lparr>networkListeners := splice1 (nat index) (networkListeners sys)\<rparr>
         else sys)"

text \<open>\<^verbatim>\<open>isOffline\<close> (lines 288-290).\<close>

definition isOffline :: "'p service \<Rightarrow> bool" where
  "isOffline sys = (\<not> svc_isConnected sys)"

text \<open>
  A call of \<^verbatim>\<open>syncPendingStories\<close> runs to its first await (line 204, at line
  113) and leaves a pending read. \<^verbatim>\<open>forceSyncPendingStories\<close> (lines 296-299) logs
  and makes the same call.
\<close>

definition syncPendingStories_call :: "'p service \<Rightarrow> 'p service" where
  "syncPendingStories_call sys = sys\<lparr>drains := drains sys @ [AwaitList]\<rparr>"

definition forceSyncPendingStories_call :: "'p service \<Rightarrow> 'p service" where
  "forceSyncPendingStories_call sys = syncPendingStories_call sys"

text \<open>
  \<^verbatim>\<open>initializeNetworkListener\<close> (lines 28-51), which the constructor calls, from the
  settling of \<^verbatim>\<open>NetInfo.fetch()\<close>: line 32 when it is fulfilled, which is also when
  the listener of line 35 is registered; the log of line 49 when it is rejected.
\<close>

definition initializeNetworkListener :: "NetInfoState settled \<Rightarrow> 'p service \<Rightarrow> 'p service" where
  "initializeNetworkListener fetched sys =
     (case fetched of
        Fulfilled netInfo \<Rightarrow>
          sys\<lparr>svc_isConnected :=
                nullish_false (ni_isConnected netInfo) \<and>
                nullish_false (ni_isInternetReachable netInfo)\<rparr>
      | Rejected error \<Rightarrow> sys)"

text \<open>The callback given to \<^verbatim>\<open>NetInfo.addEventListener\<close> (lines 35-47).\<close>

definition netInfoListener :: "NetInfoState \<Rightarrow> 'p service \<Rightarrow> 'p service" where
  "netInfoListener state sys =
     (let wasConnected = svc_isConnected sys;
          sys1 = sys\<lparr>svc_isConnected :=
                   nullish_false (ni_isConnected state) \<and>
                   nullish_false (ni_isInternetReachable state)\<rparr>;
          sys2 = (if \<not> wasConnected \<and> svc_isConnected sys1
                  then syncPendingStories_call sys1 else sys1)
      in notifyNetworkListeners sys2)"

text \<open>
  \<^verbatim>\<open>getNetworkStatus\<close> (lines 91-105). The argument is the outcome of
  \<^verbatim>\<open>await NetInfo.fetch()\<close>; the result is \<open>Inr\<close> of the status returned or
  \<open>Inl\<close> of an error thrown to the caller.
\<close>

definition getNetworkStatus :: "NetInfoState settled \<Rightarrow> JsError + NetworkStatus" where
  "getNetworkStatus fetched =
     (case fetched of
        Fulfilled netInfo \<Rightarrow>
          Inr \<lparr>isConnected = or_false (ni_isConnected netInfo),
               isInternetReachable = or_false (ni_isInternetReachable netInfo)\<rparr>
      | Rejected error \<Rightarrow>
          Inr \<lparr>isConnected = False, isInternetReachable = False\<rparr>)"

section \<open>The pending list (lines 111-196)\<close>

definition STORAGE_ERROR :: "string \<Rightarrow> ServiceError" where
  "STORAGE_ERROR msg = \<lparr>code = ''STORAGE_ERROR'', message = msg\<rparr>"

text \<open>
  \<^verbatim>\<open>getPendingStories\<close> (lines 111-126); \<open>get_ok\<close> says whether
  \<^verbatim>\<open>AsyncStorage.getItem\<close> is fulfilled (with a value that parses).
\<close>

definition getPendingStories ::
  "bool \<Rightarrow> 'p PendingStory list option \<Rightarrow> ServiceError + 'p PendingStory list" where
  "getPendingStories get_ok stored =
     (if get_ok
      then (case stored of Some pendingStories \<Rightarrow> Inr pendingStories | None \<Rightarrow> Inr [])
      else Inl (STORAGE_ERROR ''Failed to retrieve pending stories from storage''))"

text \<open>\<^verbatim>\<open>String(n)\<close> for a natural number, as in the template literal of line 137.\<close>

definition digit :: "nat \<Rightarrow> char" where
  "digit d = (''0123456789'' ! d)"

fun decimal :: "nat \<Rightarrow> string" where
  "decimal n = (if n < 10 then [digit n] else decimal (n div 10) @ [digit (n mod 10)])"

declare decimal.simps [simp del]

text \<open>
  \<^verbatim>\<open>JSON.parse(JSON.stringify(x))\<close> for a number: \<^verbatim>\<open>JSON.stringify\<close> writes a
  finite number as the shortest decimal that reads back as the same number, the negative
  zero as \<^verbatim>\<open>0\<close>, and a number that is not finite as \<^verbatim>\<open>null\<close>.
\<close>

fun json_of_number :: "number \<Rightarrow> json_number" where
  "json_of_number (Finite x) = JNumber x"
| "json_of_number NegZero = JNumber 0"
| "json_of_number NaN = JNull"
| "json_of_number Infinity = JNull"
| "json_of_number NegInfinity = JNull"

text \<open>
  The same for the data of a story: the strings are read back as they were, a property
  that is \<^verbatim>\<open>undefined\<close> is not written and so is absent when read back,
  \<^verbatim>\<open>null\<close> is read back as \<^verbatim>\<open>null\<close>, and an object property by property.
\<close>

definition json_location :: "number LocationData \<Rightarrow> json_number LocationData" where
  "json_location l =
     \<lparr>latitude = json_of_number (latitude l), longitude = json_of_number (longitude l),
      accuracy = json_of_number (accuracy l),
      location_timestamp = json_of_number (location_timestamp l)\<rparr>"

definition json_storyData :: "number StoryCreateData \<Rightarrow> json_number StoryCreateData" where
  "json_storyData data =
     \<lparr>title = title data, content = content data, category = category data,
      categoryId = categoryId data,
      location = (case location data of
                    Undefined \<Rightarrow> Undefined
                  | Null \<Rightarrow> Null
                  | Present l \<Rightarrow> Present (json_location l))\<rparr>"

text \<open>
  \<^verbatim>\<open>addPendingStory\<close> (lines 133-156). The environment gives the two readings of
  \<^verbatim>\<open>Date.now()\<close> (lines 137 and 139), the string
  \<^verbatim>\<open>Math.random().toString(36).substr(2, 9)\<close>, and whether the read and the write
  of the storage are fulfilled. The result is the value returned or the error thrown, and
  the storage afterwards: the list read, which is written back as it is, and the new
  entry as it is read back from the text written at line 144 (its id is a string, its
  timestamp a reading of the clock and its count 0, which are read back as they were).
\<close>

definition addPendingStory ::
  "bool \<Rightarrow> bool \<Rightarrow> nat \<Rightarrow> string \<Rightarrow> nat \<Rightarrow> number StoryCreateData
     \<Rightarrow> json_number StoryCreateData PendingStory list option
     \<Rightarrow> (ServiceError + string) \<times> json_number StoryCreateData PendingStory list option" where
  "addPendingStory get_ok set_ok now random now2 data stored =
     (case getPendingStories get_ok stored of
        Inl e \<Rightarrow> (Inl (STORAGE_ERROR ''Failed to save story offline''), stored)
      | Inr pendingStories \<Rightarrow>
          (let pendingStory =
                 \<lparr>pid = ''pending_'' @ decimal now @ ''_'' @ random,
                  storyData = json_storyData data, timestamp = now2, retryCount = 0\<rparr>
           in if set_ok
              then (Inr (pid pendingStory), Some (pendingStories @ [pendingStory]))
              else (Inl (STORAGE_ERROR ''Failed to save story offline''), stored)))"

text \<open>\<^verbatim>\<open>removePendingStory\<close> (lines 163-178).\<close>

definition removePendingStory ::
  "bool \<Rightarrow> bool \<Rightarrow> string \<Rightarrow> 'p PendingStory list option
     \<Rightarrow> (ServiceError + unit) \<times> 'p PendingStory list option" where
  "removePendingStory get_ok set_ok i stored =
     (case getPendingStories get_ok stored of
        Inl e \<Rightarrow> (Inl (STORAGE_ERROR ''Failed to remove pending story from storage''), stored)
      | Inr pendingStories \<Rightarrow>
          (let updatedStories = filter (\<lambda>story. pid story \<noteq> i) pendingStories
           in if set_ok
              then (Inr (), Some updatedStories)
              else (Inl (STORAGE_ERROR ''Failed to remove pending story from storage''),
                    stored)))"

text \<open>\<^verbatim>\<open>clearPendingStories\<close> (lines 184-196).\<close>

definition clearPendingStories ::
  "bool \<Rightarrow> 'p PendingStory list option
     \<Rightarrow> (ServiceError + unit) \<times> 'p PendingStory list option" where
  "clearPendingStories remove_ok stored =
     (if remove_ok then (Inr (), None)
      else (Inl (STORAGE_ERROR ''Failed to clear pending stories from storage''), stored))"

text \<open>\<^verbatim>\<open>getPendingStoriesCount\<close> (lines 274-282).\<close>

definition getPendingStoriesCount :: "bool \<Rightarrow> 'p PendingStory list option \<Rightarrow> nat" where
  "getPendingStoriesCount get_ok stored =
     (case getPendingStories get_ok stored of
        Inr pendingStories \<Rightarrow> length pendingStories
      | Inl e \<Rightarrow> 0)"

section \<open>Draining the pending list (lines 202-268)\<close>

definition SYNC_ERROR :: ServiceError where
  "SYNC_ERROR = \<lparr>code = ''SYNC_ERROR'', message = ''Failed to sync pending stories''\<rparr>"

text \<open>
  The callback of line 213 for one entry, from its call by \<^verbatim>\<open>map\<close> to its first
  await: where it waits, and the entries it has called \<^verbatim>\<open>addDoc\<close> for. The document
  sent copies the fields of the story data and adds a fresh \<^verbatim>\<open>storyId\<close>, the
  server's timestamp and three counters at 0 (lines 223-236); the model records the
  entry the call was made for.
\<close>

definition callback_start :: "'p PendingStory \<Rightarrow> 'p callback \<times> 'p PendingStory list" where
  "callback_start pendingStory =
     (if retryCount pendingStory \<ge> MAX_RETRY_COUNT
      then (AwaitRemoveGet pendingStory, [])
      else (AwaitAddDoc pendingStory, [pendingStory]))"

text \<open>
  \<^verbatim>\<open>syncPendingStories\<close> from the settling of its read (line 204) to line 257: the
  state of the drain and the \<^verbatim>\<open>addDoc\<close> calls made by the callbacks, which
  \<^verbatim>\<open>map\<close> starts one after the other.
\<close>

definition drain_start ::
  "bool \<Rightarrow> 'p PendingStory list option \<Rightarrow> 'p drain \<times> 'p PendingStory list" where
  "drain_start get_ok stored =
     (case getPendingStories get_ok stored of
        Inl e \<Rightarrow> (Threw SYNC_ERROR, [])
      | Inr pendingStories \<Rightarrow>
          if length pendingStories = 0 then (Returned, [])
          else (AwaitAll (map (\<lambda>pendingStory. fst (callback_start pendingStory)) pendingStories),
                concat (map (\<lambda>pendingStory. snd (callback_start pendingStory)) pendingStories)))"

text \<open>
  \<^verbatim>\<open>updatedStories.find(s => s.id === id)\<close> followed by
  \<^verbatim>\<open>updatedStory.retryCount++\<close> (lines 249-251): the first entry with the id is
  incremented in the list.
\<close>

fun increment_found :: "string \<Rightarrow> 'p PendingStory list \<Rightarrow> 'p PendingStory list" where
  "increment_found i [] = []"
| "increment_found i (s # ss) =
     (if pid s = i then s\<lparr>retryCount := retryCount s + 1\<rparr> # ss
      else s # increment_found i ss)"

text \<open>
  One callback, from the settling of the await it is at to its next await: \<open>ok\<close> says
  whether the awaited promise is fulfilled. A read sees the storage of that moment and a
  write replaces it.
\<close>

fun callback_settle ::
  "bool \<Rightarrow> 'p callback \<Rightarrow> 'p PendingStory list option \<Rightarrow> 'p callback \<times> 'p PendingStory list option" where
  "callback_settle ok (AwaitAddDoc p) stored =
     (if ok then (AwaitRemoveGet p, stored) else (AwaitCatchGet p, stored))"
| "callback_settle ok (AwaitRemoveGet p) stored =
     (case getPendingStories ok stored of
        Inl e \<Rightarrow> (AwaitCatchGet p, stored)
      | Inr pendingStories \<Rightarrow>
          (AwaitRemoveSet p (filter (\<lambda>story. pid story \<noteq> pid p) pendingStories), stored))"
| "callback_settle ok (AwaitRemoveSet p updatedStories) stored =
     (if ok then (Settled, Some updatedStories) else (AwaitCatchGet p, stored))"
| "callback_settle ok (AwaitCatchGet p) stored =
     (case getPendingStories ok stored of
        Inl e \<Rightarrow> (Settled, stored)
      | Inr updatedStories \<Rightarrow>
          (case find (\<lambda>s. pid s = pid p) updatedStories of
             Some updatedStory \<Rightarrow>
               (AwaitCatchSet p (increment_found (pid p) updatedStories), stored)
           | None \<Rightarrow> (Settled, stored)))"
| "callback_settle ok (AwaitCatchSet p updatedStories) stored =
     (if ok then (Settled, Some updatedStories) else (Settled, stored))"
| "callback_settle ok Settled stored = (Settled, stored)"

text \<open>
  What the caller of \<^verbatim>\<open>syncPendingStories\<close> has got: nothing yet, the error
  thrown, or the return (of no value) once every callback is settled.
\<close>

definition drain_result :: "'p drain \<Rightarrow> (ServiceError + unit) option" where
  "drain_result d =
     (case d of
        AwaitList \<Rightarrow> None
      | AwaitAll callbacks \<Rightarrow> if list_all (\<lambda>t. t = Settled) callbacks then Some (Inr ()) else None
      | Returned \<Rightarrow> Some (Inr ())
      | Threw e \<Rightarrow> Some (Inl e))"

section \<open>Runs\<close>

datatype event =
    FetchSettles "NetInfoState settled"
      \<comment> \<open>the \<^verbatim>\<open>NetInfo.fetch()\<close> of line 31 settles\<close>
  | NetInfoChange NetInfoState
      \<comment> \<open>the platform calls the listener of line 35\<close>
  | ForceSync
      \<comment> \<open>\<^verbatim>\<open>forceSyncPendingStories\<close> is called\<close>
  | SubscribeCall listener
  | UnsubscribeCall listener
  | ListSettles nat bool
      \<comment> \<open>the read of the drain with this number settles\<close>
  | CallbackSettles nat nat bool
      \<comment> \<open>in the drain with this number, the await of the callback of this index settles\<close>

fun step :: "event \<Rightarrow> 'p service \<Rightarrow> 'p service" where
  "step (FetchSettles fetched) sys = initializeNetworkListener fetched sys"
| "step (NetInfoChange state) sys = netInfoListener state sys"
| "step ForceSync sys = forceSyncPendingStories_call sys"
| "step (SubscribeCall listener) sys = subscribeToNetworkStatus listener sys"
| "step (UnsubscribeCall listener) sys = unsubscribe listener sys"
| "step (ListSettles d ok) sys =
     (if d < length (drains sys) \<and> drains sys ! d = AwaitList
      then (let (dr, calls) = drain_start ok (storage sys)
            in sys\<lparr>addDoc_calls := addDoc_calls sys @ calls,
                   drains := (drains sys)[d := dr]\<rparr>)
      else sys)"
| "step (CallbackSettles d i ok) sys =
     (if d < length (drains sys)
      then (case drains sys ! d of
              AwaitAll callbacks \<Rightarrow>
                if i < length callbacks
                then (let (t, stored) = callback_settle ok (callbacks ! i) (storage sys)
                      in sys\<lparr>storage := stored,
                             drains := (drains sys)[d := AwaitAll (callbacks[i := t])]\<rparr>)
                else sys
            | _ \<Rightarrow> sys)
      else sys)"

fun run :: "event list \<Rightarrow> 'p service \<Rightarrow> 'p service" where
  "run [] sys = sys"
| "run (e # es) sys = run es (step e sys)"

text \<open>
  The events of one callback that runs to its end with nothing in between: the outcome
  of \<^verbatim>\<open>addDoc\<close> if it was called, then a read and a write of the storage that are
  both fulfilled.
\<close>

definition alone :: "nat \<Rightarrow> nat \<Rightarrow> 'p PendingStory \<Rightarrow> bool \<Rightarrow> event list" where
  "alone d i pendingStory added =
     (if retryCount pendingStory \<ge> MAX_RETRY_COUNT then [] else [CallbackSettles d i added])
     @ [CallbackSettles d i True, CallbackSettles d i True]"

section \<open>Submitting a story (src/services/storyService.ts, lines 96-145)\<close>

definition FIRESTORE_ERROR :: ServiceError where
  "FIRESTORE_ERROR =
     \<lparr>code = ''FIRESTORE_ERROR'', message = ''Failed to create story in database''\<rparr>"

text \<open>\<^verbatim>\<open>s.startsWith(p)\<close> and \<^verbatim>\<open>s.includes(sub)\<close>.\<close>

fun startsWith :: "string \<Rightarrow> string \<Rightarrow> bool" where
  "startsWith s [] = True"
| "startsWith [] (c # cs) = False"
| "startsWith (d # ds) (c # cs) = (d = c \<and> startsWith ds cs)"

fun includes_str :: "string \<Rightarrow> string \<Rightarrow> bool" where
  "includes_str [] sub = (sub = [])"
| "includes_str (c # cs) sub = (startsWith (c # cs) sub \<or> includes_str cs sub)"

text \<open>A \<^verbatim>\<open>ServiceError\<close> as the catch block of line 125 reads it.\<close>

definition thrown :: "ServiceError \<Rightarrow> JsError" where
  "thrown e = \<lparr>err_code = Some (code e), err_message = Some (message e)\<rparr>"

text \<open>The test of line 129 on the error caught.\<close>

definition network_error :: "JsError \<Rightarrow> bool" where
  "network_error error =
     (err_code error = Some ''unavailable'' \<or>
      (case err_message error of None \<Rightarrow> False | Some m \<Rightarrow> includes_str m ''network''))"

text \<open>The catch block of \<^verbatim>\<open>createStory\<close> (lines 125-144).\<close>

definition createStory_catch ::
  "JsError \<Rightarrow> bool \<Rightarrow> bool \<Rightarrow> nat \<Rightarrow> string \<Rightarrow> nat \<Rightarrow> number StoryCreateData
     \<Rightarrow> json_number StoryCreateData PendingStory list option
     \<Rightarrow> (ServiceError + string) \<times> json_number StoryCreateData PendingStory list option" where
  "createStory_catch error get_ok set_ok now random now2 data stored =
     (if network_error error
      then (case addPendingStory get_ok set_ok now random now2 data stored of
              (Inr pendingId, stored') \<Rightarrow> (Inr pendingId, stored')
            | (Inl offlineError, stored') \<Rightarrow> (Inl FIRESTORE_ERROR, stored'))
      else (Inl FIRESTORE_ERROR, stored))"

text \<open>
  \<^verbatim>\<open>createStory\<close> (lines 96-145), run with nothing in between. \<open>added\<close> is the
  outcome of \<^verbatim>\<open>addDoc\<close> (line 121), with the id of the document created; the other
  arguments are those of \<open>addPendingStory\<close>.
\<close>

definition createStory ::
  "string settled \<Rightarrow> bool \<Rightarrow> bool \<Rightarrow> nat \<Rightarrow> string \<Rightarrow> nat \<Rightarrow> number StoryCreateData
     \<Rightarrow> json_number StoryCreateData service
     \<Rightarrow> (ServiceError + string) \<times> json_number StoryCreateData service" where
  "createStory added get_ok set_ok now random now2 data sys =
     (let (result, stored) =
        (if isOffline sys
         then (case addPendingStory get_ok set_ok now random now2 data (storage sys) of
                 (Inr pendingId, stored') \<Rightarrow> (Inr pendingId, stored')
               | (Inl e, stored') \<Rightarrow>
                   createStory_catch (thrown e) get_ok set_ok now random now2 data stored')
         else (case added of
                 Fulfilled docId \<Rightarrow> (Inr docId, storage sys)
               | Rejected error \<Rightarrow>
                   createStory_catch error get_ok set_ok now random now2 data (storage sys)))
      in (result, sys\<lparr>storage := stored\<rparr>))"

section \<open>Notions used to state the properties\<close>

text \<open>
  Deep equality of the data a caller gave with data read back from the storage: the
  same strings, and the same location, number by number. A number read back is equal to
  the number given when it is finite and the same; \<^verbatim>\<open>null\<close> is equal to no number,
  and the zero read back is not the negative zero.
\<close>

fun same_number :: "number \<Rightarrow> json_number \<Rightarrow> bool" where
  "same_number (Finite x) (JNumber y) = (x = y)"
| "same_number n j = False"

fun same_location ::
  "number LocationData optional \<Rightarrow> json_number LocationData optional \<Rightarrow> bool" where
  "same_location Undefined Undefined = True"
| "same_location Null Null = True"
| "same_location (Present l) (Present k) =
     (same_number (latitude l) (latitude k) \<and> same_number (longitude l) (longitude k) \<and>
      same_number (accuracy l) (accuracy k) \<and>
      same_number (location_timestamp l) (location_timestamp k))"
| "same_location a b = False"

definition deep_equal :: "number StoryCreateData \<Rightarrow> json_number StoryCreateData \<Rightarrow> bool" where
  "deep_equal data read =
     (title data = title read \<and> content data = content read \<and>
      category data = category read \<and> categoryId data = categoryId read \<and>
      same_location (location data) (location read))"

text \<open>Story data all of whose numbers are finite, none the negative zero.\<close>

fun plain_number :: "number \<Rightarrow> bool" where
  "plain_number (Finite x) = True"
| "plain_number n = False"

definition plain_numbers :: "number StoryCreateData \<Rightarrow> bool" where
  "plain_numbers data =
     (case location data of
        Present l \<Rightarrow> plain_number (latitude l) \<and> plain_number (longitude l) \<and>
                     plain_number (accuracy l) \<and> plain_number (location_timestamp l)
      | _ \<Rightarrow> True)"

text \<open>
  The entries of a list whose story data is deep-equal to the given one and whose count
  is 0.
\<close>

definition matching ::
  "number StoryCreateData \<Rightarrow> json_number StoryCreateData PendingStory list
     \<Rightarrow> json_number StoryCreateData PendingStory list" where
  "matching data xs = filter (\<lambda>e. deep_equal data (storyData e) \<and> retryCount e = 0) xs"

text \<open>The value of a digit and of a string of digits, to read a decimal back.\<close>

definition digit_value :: "char \<Rightarrow> nat" where
  "digit_value c = of_char c - 48"

definition decimal_value :: "string \<Rightarrow> nat" where
  "decimal_value cs = foldl (\<lambda>a c. 10 * a + digit_value c) 0 cs"

text \<open>Story data to try the definitions on: without a location, and with one.\<close>

definition a_story :: "string \<Rightarrow> number StoryCreateData" where
  "a_story t = \<lparr>title = t, content = ''once upon a time'', category = ''Life'',
              categoryId = ''3'', location = Null\<rparr>"

definition a_story_at :: "number \<Rightarrow> number StoryCreateData" where
  "a_story_at lat =
     \<lparr>title = ''here'', content = ''once upon a time'', category = ''Life'',
      categoryId = ''3'',
      location = Present \<lparr>latitude = lat, longitude = Finite 80, accuracy = Finite 5,
                           location_timestamp = Finite 1700000000000\<rparr>\<rparr>"

text \<open>A status in which "reachable" implies "connected".\<close>

definition status_ok :: "NetworkStatus \<Rightarrow> bool" where
  "status_ok s = (isInternetReachable s \<longrightarrow> isConnected s)"

text \<open>The number of awaits a callback can still go through.\<close>

fun rank :: "'p callback \<Rightarrow> nat" where
  "rank (AwaitAddDoc p) = 5"
| "rank (AwaitRemoveGet p) = 4"
| "rank (AwaitRemoveSet p xs) = 3"
| "rank (AwaitCatchGet p) = 2"
| "rank (AwaitCatchSet p xs) = 1"
| "rank Settled = 0"

text \<open>
  The number of events of a run that settle an await of the callback of index \<open>i\<close> in
  the drain of number \<open>d\<close>.
\<close>

fun settles :: "nat \<Rightarrow> nat \<Rightarrow> event list \<Rightarrow> nat" where
  "settles d i [] = 0"
| "settles d i (CallbackSettles d' i' ok # es) =
     (if d' = d \<and> i' = i then Suc (settles d i es) else settles d i es)"
| "settles d i (e # es) = settles d i es"

text \<open>An entry to try the definitions on.\<close>

definition entry :: "string \<Rightarrow> int \<Rightarrow> string PendingStory" where
  "entry i n = \<lparr>pid = i, storyData = ''the story '' @ i, timestamp = 1, retryCount = n\<rparr>"

section \<open>Theorems\<close>

subsection \<open>Auxiliary facts\<close>

lemma startsWith_append: "startsWith (p @ s) p"
  by (induction p) simp_all

lemma filter_pid_absent: "i \<notin> pid ` set xs \<Longrightarrow> filter (\<lambda>e. pid e = i) xs = []"
  by (induction xs) auto

lemma indexOf_ge: "indexOf xs x \<ge> - 1"
  by (induction xs) (auto simp: Let_def)

lemma indexOf_absent: "(indexOf xs x = - 1) = (x \<notin> set xs)"
proof (induction xs)
  case Nil
  show ?case by simp
next
  case (Cons y ys)
  have "indexOf ys x \<ge> - 1" by (rule indexOf_ge)
  with Cons show ?case by (auto simp: Let_def)
qed

lemma splice1_indexOf: "x \<in> set xs \<Longrightarrow> splice1 (nat (indexOf xs x)) xs = remove1 x xs"
proof (induction xs)
  case Nil
  then show ?case by simp
next
  case (Cons y ys)
  show ?case
  proof (cases "y = x")
    case True
    then show ?thesis by (simp add: splice1_def)
  next
    case False
    with Cons.prems have m: "x \<in> set ys" by simp
    then have n: "indexOf ys x \<noteq> - 1" by (simp add: indexOf_absent)
    have g: "indexOf ys x \<ge> - 1" by (rule indexOf_ge)
    from n g have nn: "indexOf ys x \<ge> 0" by arith
    then have "nat (indexOf ys x + 1) = Suc (nat (indexOf ys x))" by arith
    with False n Cons.IH[OF m] show ?thesis
      by (simp add: splice1_def Let_def)
  qed
qed

lemma listeners_unsubscribe:
  "networkListeners (unsubscribe l sys) = remove1 l (networkListeners sys)"
proof (cases "l \<in> set (networkListeners sys)")
  case True
  then have "indexOf (networkListeners sys) l \<noteq> - 1" by (simp add: indexOf_absent)
  moreover have "indexOf (networkListeners sys) l \<ge> - 1" by (rule indexOf_ge)
  ultimately have "indexOf (networkListeners sys) l > - 1" by arith
  with True show ?thesis by (simp add: unsubscribe_def Let_def splice1_indexOf)
next
  case False
  then have "indexOf (networkListeners sys) l = - 1" by (simp add: indexOf_absent)
  with False show ?thesis by (simp add: unsubscribe_def Let_def remove1_idem)
qed

lemma unsubscribe_absent: "l \<notin> set (networkListeners sys) \<Longrightarrow> unsubscribe l sys = sys"
  by (simp add: unsubscribe_def Let_def indexOf_absent[symmetric])

lemma delivered_unsubscribe: "delivered (unsubscribe l sys) = delivered sys"
  by (simp add: unsubscribe_def Let_def)

lemma delivered_netInfoListener:
  "delivered (netInfoListener state sys) =
     delivered sys @ map (\<lambda>listener. (listener, current_status (netInfoListener state sys)))
                        (networkListeners sys)"
  by (simp add: netInfoListener_def Let_def notifyNetworkListeners_def
      syncPendingStories_call_def current_status_def)

lemma listeners_netInfoListener:
  "networkListeners (netInfoListener state sys) = networkListeners sys"
  by (simp add: netInfoListener_def Let_def notifyNetworkListeners_def syncPendingStories_call_def)

lemma delivered_subscribe:
  "delivered (subscribeToNetworkStatus l sys) = delivered sys @ [(l, current_status sys)]"
  by (simp add: subscribeToNetworkStatus_def Let_def current_status_def)

lemma listeners_subscribe:
  "networkListeners (subscribeToNetworkStatus l sys) = networkListeners sys @ [l]"
  by (simp add: subscribeToNetworkStatus_def Let_def)

lemma delivered_step_drain:
  "delivered (step (ListSettles d ok) sys) = delivered sys"
  "delivered (step (CallbackSettles d i ok) sys) = delivered sys"
  "delivered (step ForceSync sys) = delivered sys"
  "delivered (step (FetchSettles fetched) sys) = delivered sys"
  by (simp_all add: Let_def forceSyncPendingStories_call_def syncPendingStories_call_def
      initializeNetworkListener_def split: prod.splits drain.splits settled.splits)

lemma listeners_step_drain:
  "networkListeners (step (ListSettles d ok) sys) = networkListeners sys"
  "networkListeners (step (CallbackSettles d i ok) sys) = networkListeners sys"
  "networkListeners (step ForceSync sys) = networkListeners sys"
  "networkListeners (step (FetchSettles fetched) sys) = networkListeners sys"
  by (simp_all add: Let_def forceSyncPendingStories_call_def syncPendingStories_call_def
      initializeNetworkListener_def split: prod.splits drain.splits settled.splits)

lemma status_ok_current: "status_ok (current_status sys)"
  by (simp add: status_ok_def current_status_def)

lemma delivered_ok_step:
  assumes "\<forall>d \<in> set (delivered sys). status_ok (snd d)"
  shows "\<forall>d \<in> set (delivered (step e sys)). status_ok (snd d)"
proof (cases e)
  case (NetInfoChange state)
  with assms show ?thesis
    by (auto simp: delivered_netInfoListener status_ok_current)
next
  case (FetchSettles fetched)
  with assms show ?thesis by (simp only: delivered_step_drain)
next
  case ForceSync
  with assms show ?thesis by (simp only: delivered_step_drain)
next
  case (SubscribeCall l)
  with assms show ?thesis by (auto simp: delivered_subscribe status_ok_current)
next
  case (UnsubscribeCall l)
  with assms show ?thesis by (simp add: delivered_unsubscribe)
next
  case (ListSettles d ok)
  with assms show ?thesis by (simp only: delivered_step_drain)
next
  case (CallbackSettles d i ok)
  with assms show ?thesis by (simp only: delivered_step_drain)
qed

lemma delivered_ok_run:
  "\<forall>d \<in> set (delivered sys). status_ok (snd d) \<Longrightarrow>
   \<forall>d \<in> set (delivered (run es sys)). status_ok (snd d)"
proof (induction es arbitrary: sys)
  case Nil
  then show ?case by simp
next
  case (Cons e es)
  from Cons.prems have "\<forall>d \<in> set (delivered (step e sys)). status_ok (snd d)"
    by (rule delivered_ok_step)
  then show ?case using Cons.IH by simp
qed

lemma remove1_count_le1: "count_list xs l \<le> 1 \<Longrightarrow> l \<notin> set (remove1 l xs)"
proof (induction xs)
  case Nil
  then show ?case by simp
next
  case (Cons y ys)
  show ?case
  proof (cases "y = l")
    case True
    with Cons.prems have "count_list ys l = 0" by simp
    then have "l \<notin> set ys" by (simp add: count_list_0_iff)
    moreover from True have "remove1 l (y # ys) = ys" by simp
    ultimately show ?thesis by simp
  next
    case False
    with Cons show ?thesis by simp
  qed
qed

lemma listener_kept_step:
  assumes "l \<in> set (networkListeners sys)" and "e \<noteq> UnsubscribeCall l"
  shows "l \<in> set (networkListeners (step e sys))"
proof (cases e)
  case (NetInfoChange state)
  with assms show ?thesis by (simp add: listeners_netInfoListener)
next
  case (FetchSettles fetched)
  with assms show ?thesis by (simp only: listeners_step_drain)
next
  case ForceSync
  with assms show ?thesis by (simp only: listeners_step_drain)
next
  case (SubscribeCall l')
  with assms show ?thesis by (simp add: listeners_subscribe)
next
  case (UnsubscribeCall l')
  with assms have "l' \<noteq> l" by simp
  with assms(1) have "l \<in> set (remove1 l' (networkListeners sys))" by simp
  with UnsubscribeCall show ?thesis by (simp add: listeners_unsubscribe)
next
  case (ListSettles d ok)
  with assms show ?thesis by (simp only: listeners_step_drain)
next
  case (CallbackSettles d i ok)
  with assms show ?thesis by (simp only: listeners_step_drain)
qed

lemma listener_kept_run:
  "l \<in> set (networkListeners sys) \<Longrightarrow> UnsubscribeCall l \<notin> set es \<Longrightarrow>
   l \<in> set (networkListeners (run es sys))"
proof (induction es arbitrary: sys)
  case Nil
  then show ?case by simp
next
  case (Cons e es)
  from Cons.prems have "e \<noteq> UnsubscribeCall l" by auto
  with Cons.prems(1) have "l \<in> set (networkListeners (step e sys))"
    by (rule listener_kept_step)
  moreover from Cons.prems have "UnsubscribeCall l \<notin> set es" by simp
  ultimately show ?case using Cons.IH by simp
qed

lemma listener_absent_step:
  assumes "l \<notin> set (networkListeners sys)" and "e \<noteq> SubscribeCall l"
  shows "l \<notin> set (networkListeners (step e sys)) \<and>
         filter (\<lambda>d. fst d = l) (delivered (step e sys)) = filter (\<lambda>d. fst d = l) (delivered sys)"
proof (cases e)
  case (NetInfoChange state)
  have "filter (\<lambda>d. fst d = l) (map (\<lambda>listener. (listener, st)) ls) = []" if "l \<notin> set ls"
    for ls and st :: NetworkStatus
    using that by (induction ls) auto
  with NetInfoChange assms show ?thesis
    by (simp add: listeners_netInfoListener delivered_netInfoListener)
next
  case (FetchSettles fetched)
  with assms show ?thesis by (simp only: listeners_step_drain delivered_step_drain simp_thms)
next
  case ForceSync
  with assms show ?thesis by (simp only: listeners_step_drain delivered_step_drain simp_thms)
next
  case (SubscribeCall l')
  with assms have "l' \<noteq> l" by simp
  with SubscribeCall assms(1) show ?thesis
    by (simp add: listeners_subscribe delivered_subscribe)
next
  case (UnsubscribeCall l')
  from assms(1) have "l \<notin> set (remove1 l' (networkListeners sys))"
    using notin_set_remove1 by fast
  with UnsubscribeCall show ?thesis
    by (simp add: listeners_unsubscribe delivered_unsubscribe)
next
  case (ListSettles d ok)
  with assms show ?thesis by (simp only: listeners_step_drain delivered_step_drain simp_thms)
next
  case (CallbackSettles d i ok)
  with assms show ?thesis by (simp only: listeners_step_drain delivered_step_drain simp_thms)
qed

lemma listener_absent_run:
  "l \<notin> set (networkListeners sys) \<Longrightarrow> SubscribeCall l \<notin> set es \<Longrightarrow>
   filter (\<lambda>d. fst d = l) (delivered (run es sys)) = filter (\<lambda>d. fst d = l) (delivered sys)"
proof (induction es arbitrary: sys)
  case Nil
  then show ?case by simp
next
  case (Cons e es)
  from Cons.prems have ne: "e \<noteq> SubscribeCall l" by auto
  from listener_absent_step[OF Cons.prems(1) ne]
  have a: "l \<notin> set (networkListeners (step e sys))"
    and b: "filter (\<lambda>d. fst d = l) (delivered (step e sys)) = filter (\<lambda>d. fst d = l) (delivered sys)"
    by simp_all
  from Cons.prems have "SubscribeCall l \<notin> set es" by simp
  with a have "filter (\<lambda>d. fst d = l) (delivered (run es (step e sys)))
                 = filter (\<lambda>d. fst d = l) (delivered (step e sys))"
    by (rule Cons.IH)
  with b show ?case by simp
qed

lemma calls_callback_start:
  "concat (map (\<lambda>p. snd (callback_start p)) xs) = filter (\<lambda>p. retryCount p < MAX_RETRY_COUNT) xs"
  by (induction xs) (simp_all add: callback_start_def)

lemma step_ListSettles:
  assumes "d < length (drains sys)" and "drains sys ! d = AwaitList"
    and "getPendingStories True (storage sys) = Inr xs"
  shows "step (ListSettles d True) sys =
           sys\<lparr>addDoc_calls := addDoc_calls sys @ filter (\<lambda>p. retryCount p < MAX_RETRY_COUNT) xs,
               drains := (drains sys)[d := if xs = [] then Returned
                                          else AwaitAll (map (\<lambda>p. fst (callback_start p)) xs)]\<rparr>"
  using assms by (simp add: drain_start_def calls_callback_start)

lemma step_CallbackSettles:
  assumes "d < length (drains sys)" and "drains sys ! d = AwaitAll ts" and "i < length ts"
  shows "step (CallbackSettles d i ok) sys =
           sys\<lparr>storage := snd (callback_settle ok (ts ! i) (storage sys)),
               drains := (drains sys)[d := AwaitAll (ts[i := fst (callback_settle ok (ts ! i) (storage sys))])]\<rparr>"
  using assms by (simp add: split_beta)

lemma calls_step_other:
  "(\<forall>d ok. e \<noteq> ListSettles d ok) \<Longrightarrow> addDoc_calls (step e sys) = addDoc_calls sys"
proof (cases e)
  case (ListSettles d ok)
  moreover assume "\<forall>d ok. e \<noteq> ListSettles d ok"
  ultimately show ?thesis by blast
qed (simp_all add: netInfoListener_def notifyNetworkListeners_def syncPendingStories_call_def
        forceSyncPendingStories_call_def subscribeToNetworkStatus_def unsubscribe_def Let_def
        initializeNetworkListener_def split_beta split: drain.splits settled.splits)

lemma calls_run_other:
  "(\<forall>d ok. ListSettles d ok \<notin> set es) \<Longrightarrow> addDoc_calls (run es sys) = addDoc_calls sys"
proof (induction es arbitrary: sys)
  case Nil
  show ?case by simp
next
  case (Cons e es)
  from Cons.prems have "\<forall>d ok. e \<noteq> ListSettles d ok" by auto
  then have "addDoc_calls (step e sys) = addDoc_calls sys" by (rule calls_step_other)
  moreover from Cons.prems have "\<forall>d ok. ListSettles d ok \<notin> set es" by auto
  ultimately show ?case using Cons.IH by simp
qed

lemma calls_step_grow: "\<exists>cs. addDoc_calls (step e sys) = addDoc_calls sys @ cs"
proof (cases "\<forall>d ok. e \<noteq> ListSettles d ok")
  case True
  then show ?thesis by (simp add: calls_step_other)
next
  case False
  then obtain d ok where "e = ListSettles d ok" by auto
  then show ?thesis by (simp add: split_beta)
qed

lemma calls_run_grow: "\<exists>cs. addDoc_calls (run es sys) = addDoc_calls sys @ cs"
proof (induction es arbitrary: sys)
  case Nil
  show ?case by simp
next
  case (Cons e es)
  obtain cs where a: "addDoc_calls (step e sys) = addDoc_calls sys @ cs"
    using calls_step_grow by blast
  obtain cs' where "addDoc_calls (run es (step e sys)) = addDoc_calls (step e sys) @ cs'"
    using Cons.IH by blast
  with a show ?case by simp
qed

lemma once_per_id:
  "distinct (map pid xs) \<Longrightarrow> length (filter (\<lambda>p. pid p = i) (filter P xs)) \<le> 1"
proof (induction xs)
  case Nil
  show ?case by simp
next
  case (Cons x xs)
  then have ih: "length (filter (\<lambda>p. pid p = i) (filter P xs)) \<le> 1" by simp
  show ?case
  proof (cases "pid x = i")
    case True
    with Cons.prems have "i \<notin> pid ` set xs" by auto
    then have "filter (\<lambda>p. pid p = i) xs = []" by (rule filter_pid_absent)
    then have "filter (\<lambda>p. pid p = i) (filter P xs) = []"
      by (auto simp: filter_empty_conv)
    then show ?thesis by simp
  next
    case False
    with ih show ?thesis by simp
  qed
qed

lemma rank_callback_settle: "rank (fst (callback_settle ok t stored)) \<le> rank t - 1"
  by (cases t) (simp_all add: getPendingStories_def split: option.splits)

lemma rank_0: "rank t = 0 \<Longrightarrow> t = Settled"
  by (cases t) simp_all

text \<open>One event leaves a drain that awaits its callbacks in that state.\<close>

lemma drain_step:
  assumes "d < length (drains sys)" and "drains sys ! d = AwaitAll ts"
  shows "\<exists>ts'. d < length (drains (step e sys)) \<and> drains (step e sys) ! d = AwaitAll ts' \<and>
           length ts' = length ts \<and>
           (\<forall>i < length ts. rank (ts' ! i) \<le> rank (ts ! i) - settles d i [e])"
proof (cases e)
  case (NetInfoChange state)
  with assms show ?thesis
    by (simp add: netInfoListener_def notifyNetworkListeners_def syncPendingStories_call_def
        Let_def nth_append)
next
  case (FetchSettles fetched)
  with assms show ?thesis
    by (simp add: initializeNetworkListener_def split: settled.splits)
next
  case ForceSync
  with assms show ?thesis
    by (simp add: forceSyncPendingStories_call_def syncPendingStories_call_def nth_append)
next
  case (SubscribeCall l)
  with assms show ?thesis by (simp add: subscribeToNetworkStatus_def Let_def)
next
  case (UnsubscribeCall l)
  with assms show ?thesis by (simp add: unsubscribe_def Let_def)
next
  case (ListSettles d' ok)
  with assms show ?thesis by (auto simp: split_beta nth_list_update)
next
  case (CallbackSettles d' i' ok)
  show ?thesis
  proof (cases "d' = d \<and> i' < length ts")
    case True
    then have e: "e = CallbackSettles d i' ok" and i': "i' < length ts" using CallbackSettles by simp_all
    have "rank ((ts[i' := fst (callback_settle ok (ts ! i') (storage sys))]) ! i)
            \<le> rank (ts ! i) - settles d i [e]" if "i < length ts" for i
      using that i' e rank_callback_settle[of ok "ts ! i'" "storage sys"]
      by (cases "i = i'") simp_all
    moreover have "step e sys =
        sys\<lparr>storage := snd (callback_settle ok (ts ! i') (storage sys)),
            drains := (drains sys)[d := AwaitAll (ts[i' := fst (callback_settle ok (ts ! i') (storage sys))])]\<rparr>"
      unfolding e by (rule step_CallbackSettles[OF assms i'])
    ultimately show ?thesis
      using assms(1)
      by (intro exI[of _ "ts[i' := fst (callback_settle ok (ts ! i') (storage sys))]"]) simp
  next
    case False
    show ?thesis
    proof (cases "d' = d")
      case True
      with False have "\<not> i' < length ts" by simp
      with True CallbackSettles assms show ?thesis by simp
    next
      case False
      with CallbackSettles assms show ?thesis
        by (auto simp: split_beta nth_list_update split: drain.splits)
    qed
  qed
qed

lemma settles_Cons: "settles d i (e # es) = settles d i [e] + settles d i es"
  by (cases e) simp_all

lemma drain_run:
  "d < length (drains sys) \<Longrightarrow> drains sys ! d = AwaitAll ts \<Longrightarrow>
   \<exists>ts'. d < length (drains (run es sys)) \<and> drains (run es sys) ! d = AwaitAll ts' \<and>
         length ts' = length ts \<and>
         (\<forall>i < length ts. rank (ts' ! i) \<le> rank (ts ! i) - settles d i es)"
proof (induction es arbitrary: sys ts)
  case Nil
  then show ?case by simp
next
  case (Cons e es)
  from drain_step[OF Cons.prems, of e]
  obtain ts1 where a: "d < length (drains (step e sys))"
    and b: "drains (step e sys) ! d = AwaitAll ts1"
    and c: "length ts1 = length ts"
    and r: "\<forall>i < length ts. rank (ts1 ! i) \<le> rank (ts ! i) - settles d i [e]"
    by blast
  from Cons.IH[OF a b]
  obtain ts' where a': "d < length (drains (run es (step e sys)))"
    and b': "drains (run es (step e sys)) ! d = AwaitAll ts'"
    and c': "length ts' = length ts1"
    and r': "\<forall>i < length ts1. rank (ts' ! i) \<le> rank (ts1 ! i) - settles d i es"
    by blast
  have "rank (ts' ! i) \<le> rank (ts ! i) - settles d i (e # es)" if "i < length ts" for i
  proof -
    from that r have "rank (ts1 ! i) \<le> rank (ts ! i) - settles d i [e]" by simp
    moreover from that c r' have "rank (ts' ! i) \<le> rank (ts1 ! i) - settles d i es" by simp
    moreover have "settles d i (e # es) = settles d i [e] + settles d i es"
      by (rule settles_Cons)
    ultimately show ?thesis by arith
  qed
  with a' b' c c' show ?case by simp
qed

lemma returned_step:
  assumes "d < length (drains sys)" and "drains sys ! d = Returned"
  shows "d < length (drains (step e sys)) \<and> drains (step e sys) ! d = Returned"
proof (cases e)
  case (NetInfoChange state)
  with assms show ?thesis
    by (simp add: netInfoListener_def notifyNetworkListeners_def syncPendingStories_call_def
        Let_def nth_append)
next
  case (FetchSettles fetched)
  with assms show ?thesis
    by (simp add: initializeNetworkListener_def split: settled.splits)
next
  case ForceSync
  with assms show ?thesis
    by (simp add: forceSyncPendingStories_call_def syncPendingStories_call_def nth_append)
next
  case (SubscribeCall l)
  with assms show ?thesis by (simp add: subscribeToNetworkStatus_def Let_def)
next
  case (UnsubscribeCall l)
  with assms show ?thesis by (simp add: unsubscribe_def Let_def)
next
  case (ListSettles d' ok)
  with assms show ?thesis by (auto simp: split_beta nth_list_update)
next
  case (CallbackSettles d' i' ok)
  with assms show ?thesis
    by (auto simp: split_beta nth_list_update split: drain.splits)
qed

lemma returned_run:
  "d < length (drains sys) \<Longrightarrow> drains sys ! d = Returned \<Longrightarrow>
   d < length (drains (run es sys)) \<and> drains (run es sys) ! d = Returned"
proof (induction es arbitrary: sys)
  case Nil
  then show ?case by simp
next
  case (Cons e es)
  from returned_step[OF Cons.prems, of e] Cons.IH show ?case by simp
qed

lemma all_settled: "(\<forall>i < length ts. rank (ts ! i) = 0) \<Longrightarrow> list_all (\<lambda>t. t = Settled) ts"
  by (auto simp: list_all_length dest: rank_0)

lemma rank_le_5: "rank t \<le> 5"
  by (cases t) simp_all







subsection \<open>The status query\<close>

text \<open>
  C10. Whatever the platform probe does, the status query returns a status and never an
  error; when the probe fails the status is "not connected, not reachable".
\<close>

theorem getNetworkStatus_never_raises:
  "(\<exists>s. getNetworkStatus fetched = Inr s) \<and>
   (\<forall>e. fetched = Rejected e \<longrightarrow>
      getNetworkStatus fetched = Inr \<lparr>isConnected = False, isInternetReachable = False\<rparr>)"
  by (cases fetched) (simp_all add: getNetworkStatus_def)

theorem getNetworkStatus_never_raises_witness:
  "(\<exists>s. getNetworkStatus (Rejected \<lparr>err_code = None, err_message = Some ''probe failed''\<rparr>) = Inr s) \<and>
   getNetworkStatus (Rejected \<lparr>err_code = None, err_message = Some ''probe failed''\<rparr>)
     = Inr \<lparr>isConnected = False, isInternetReachable = False\<rparr>"
  using getNetworkStatus_never_raises
          [of "Rejected \<lparr>err_code = None, err_message = Some ''probe failed''\<rparr>"]
  by simp

subsection \<open>Removing a pending story\<close>

text \<open>
  C7. With a storage that works, \<^verbatim>\<open>removePendingStory\<close> returns without an error
  whether or not the id is in the list; afterwards no entry has the id, a list that did
  not have the id is the same list, and the entries with another id are the same entries
  in the same order.
\<close>

theorem removePendingStory_frame:
  assumes "getPendingStories True stored = Inr before"
    and "removePendingStory True True i stored = (r, stored')"
    and "getPendingStories True stored' = Inr after"
  shows "r = Inr () \<and>
         after = filter (\<lambda>story. pid story \<noteq> i) before \<and>
         i \<notin> pid ` set after \<and>
         (i \<notin> pid ` set before \<longrightarrow> after = before) \<and>
         filter (\<lambda>story. pid story \<noteq> i) after = filter (\<lambda>story. pid story \<noteq> i) before"
proof -
  from assms(2) have r: "r = Inr ()"
    and s: "stored' = Some (filter (\<lambda>story. pid story \<noteq> i) before)"
    using assms(1) by (simp_all add: removePendingStory_def)
  from assms(3) s have a: "after = filter (\<lambda>story. pid story \<noteq> i) before"
    by (simp add: getPendingStories_def)
  have absent: "i \<notin> pid ` set before \<Longrightarrow> filter (\<lambda>story. pid story \<noteq> i) before = before"
    by (rule filter_True) auto
  show ?thesis using r a absent by auto
qed

theorem removePendingStory_frame_witness:
  "removePendingStory True True ''b''
     (Some [\<lparr>pid = ''a'', storyData = (1::nat), timestamp = 1, retryCount = 0\<rparr>,
            \<lparr>pid = ''b'', storyData = 2, timestamp = 2, retryCount = 1\<rparr>,
            \<lparr>pid = ''c'', storyData = 3, timestamp = 3, retryCount = 0\<rparr>])
   = (Inr (), Some [\<lparr>pid = ''a'', storyData = 1, timestamp = 1, retryCount = 0\<rparr>,
                    \<lparr>pid = ''c'', storyData = 3, timestamp = 3, retryCount = 0\<rparr>]) \<and>
   ''b'' \<notin> pid ` set [\<lparr>pid = ''a'', storyData = (1::nat), timestamp = 1, retryCount = 0\<rparr>,
                    \<lparr>pid = ''c'', storyData = 3, timestamp = 3, retryCount = 0\<rparr>]"
  using removePendingStory_frame
    [of "Some [\<lparr>pid = ''a'', storyData = (1::nat), timestamp = 1, retryCount = 0\<rparr>,
            \<lparr>pid = ''b'', storyData = 2, timestamp = 2, retryCount = 1\<rparr>,
            \<lparr>pid = ''c'', storyData = 3, timestamp = 3, retryCount = 0\<rparr>]"
        "[\<lparr>pid = ''a'', storyData = (1::nat), timestamp = 1, retryCount = 0\<rparr>,
            \<lparr>pid = ''b'', storyData = 2, timestamp = 2, retryCount = 1\<rparr>,
            \<lparr>pid = ''c'', storyData = 3, timestamp = 3, retryCount = 0\<rparr>]"
        "''b''" "Inr ()"
        "Some [\<lparr>pid = ''a'', storyData = 1, timestamp = 1, retryCount = 0\<rparr>,
                    \<lparr>pid = ''c'', storyData = 3, timestamp = 3, retryCount = 0\<rparr>]"
        "[\<lparr>pid = ''a'', storyData = 1, timestamp = 1, retryCount = 0\<rparr>,
                    \<lparr>pid = ''c'', storyData = 3, timestamp = 3, retryCount = 0\<rparr>]"]
  by (simp add: removePendingStory_def getPendingStories_def)

subsection \<open>Adding a pending story\<close>

lemma deep_equal_json: "plain_numbers data \<Longrightarrow> deep_equal data (json_storyData data)"
proof -
  have n: "plain_number x \<Longrightarrow> same_number x (json_of_number x)" for x
    by (cases x) simp_all
  assume "plain_numbers data"
  then show ?thesis
    by (cases "location data")
       (simp_all add: plain_numbers_def deep_equal_def json_storyData_def json_location_def n)
qed

lemma digit_value_digit: "d < 10 \<Longrightarrow> digit_value (digit d) = d"
proof -
  assume "d < 10"
  then have "d = 0 \<or> d = 1 \<or> d = 2 \<or> d = 3 \<or> d = 4 \<or> d = 5 \<or> d = 6 \<or> d = 7 \<or>
             d = 8 \<or> d = 9"
    by arith
  then consider "d = 0" | "d = 1" | "d = 2" | "d = 3" | "d = 4" | "d = 5" | "d = 6"
    | "d = 7" | "d = 8" | "d = 9"
    by blast
  then show ?thesis
    by cases (simp_all add: digit_def digit_value_def)
qed

lemma digit_not_underscore: "d < 10 \<Longrightarrow> digit d \<noteq> CHR ''_''"
proof -
  assume "d < 10"
  then have "d = 0 \<or> d = 1 \<or> d = 2 \<or> d = 3 \<or> d = 4 \<or> d = 5 \<or> d = 6 \<or> d = 7 \<or>
             d = 8 \<or> d = 9"
    by arith
  then consider "d = 0" | "d = 1" | "d = 2" | "d = 3" | "d = 4" | "d = 5" | "d = 6"
    | "d = 7" | "d = 8" | "d = 9"
    by blast
  then show ?thesis
    by cases (simp_all add: digit_def)
qed

lemma decimal_value_decimal: "decimal_value (decimal n) = n"
proof (induction n rule: decimal.induct)
  case (1 n)
  show ?case
  proof (cases "n < 10")
    case True
    then show ?thesis
      by (subst decimal.simps) (simp add: decimal_value_def digit_value_digit)
  next
    case False
    then have ih: "decimal_value (decimal (n div 10)) = n div 10" using "1" by simp
    have "decimal_value (decimal n)
            = 10 * decimal_value (decimal (n div 10)) + digit_value (digit (n mod 10))"
      using False by (subst decimal.simps) (simp add: decimal_value_def)
    also have "\<dots> = 10 * (n div 10) + n mod 10"
      by (simp add: ih digit_value_digit)
    finally show ?thesis by simp
  qed
qed

lemma decimal_no_underscore: "CHR ''_'' \<notin> set (decimal n)"
proof (induction n rule: decimal.induct)
  case (1 n)
  show ?case
  proof (cases "n < 10")
    case True
    then show ?thesis
      using digit_not_underscore[of n] by (subst decimal.simps) auto
  next
    case False
    then have "CHR ''_'' \<notin> set (decimal (n div 10))" using "1" by simp
    moreover have "digit (n mod 10) \<noteq> CHR ''_''" by (rule digit_not_underscore) simp
    ultimately show ?thesis
      using False by (subst decimal.simps) auto
  qed
qed

lemma split_at_first:
  "c \<notin> set xs \<Longrightarrow> c \<notin> set ys \<Longrightarrow> xs @ c # r = ys @ c # r' \<Longrightarrow> xs = ys \<and> r = r'"
proof (induction xs arbitrary: ys)
  case Nil
  then show ?case by (cases ys) auto
next
  case (Cons x xs)
  then show ?case by (cases ys) auto
qed

lemma pending_id_inj:
  assumes "''pending_'' @ decimal a @ ''_'' @ r = ''pending_'' @ decimal b @ ''_'' @ r'"
  shows "a = b \<and> r = r'"
proof -
  from assms have "decimal a @ CHR ''_'' # r = decimal b @ CHR ''_'' # r'" by simp
  then have d: "decimal a = decimal b" and r: "r = r'"
    using split_at_first[OF decimal_no_underscore decimal_no_underscore] by blast+
  from d have "decimal_value (decimal a) = decimal_value (decimal b)" by simp
  then have "a = b" by (simp only: decimal_value_decimal)
  with r show ?thesis by simp
qed

text \<open>
  Four runs of \<^verbatim>\<open>addPendingStory\<close>. A list that already holds the same story with
  count 0 holds two such entries afterwards. A story whose latitude is \<^verbatim>\<open>NaN\<close> is read
  back with the latitude \<^verbatim>\<open>null\<close>, and one whose latitude is the negative zero
  with the latitude 0, so that no entry of the list is deep-equal to it. When the clock
  and the random suffix give what they gave for an entry of the list, the id returned is
  the id of that entry.
\<close>

theorem addPendingStory_exactly_one_counterexample:
  "getPendingStories True
     (snd (addPendingStory True True 2 ''b'' 2 (a_story ''t'')
        (Some [\<lparr>pid = ''pending_1_a'', storyData = json_storyData (a_story ''t''),
                timestamp = 1, retryCount = 0\<rparr>])))
   = Inr [\<lparr>pid = ''pending_1_a'', storyData = json_storyData (a_story ''t''),
            timestamp = 1, retryCount = 0\<rparr>,
          \<lparr>pid = ''pending_2_b'', storyData = json_storyData (a_story ''t''),
            timestamp = 2, retryCount = 0\<rparr>] \<and>
   length (matching (a_story ''t'')
      [\<lparr>pid = ''pending_1_a'', storyData = json_storyData (a_story ''t''),
         timestamp = 1, retryCount = 0\<rparr>,
       \<lparr>pid = ''pending_2_b'', storyData = json_storyData (a_story ''t''),
         timestamp = 2, retryCount = 0\<rparr>]) = 2 \<and>
   getPendingStories True (snd (addPendingStory True True 2 ''b'' 2 (a_story_at NaN) None))
   = Inr [\<lparr>pid = ''pending_2_b'',
            storyData = \<lparr>title = ''here'', content = ''once upon a time'', category = ''Life'',
                         categoryId = ''3'',
                         location = Present \<lparr>latitude = JNull, longitude = JNumber 80,
                                             accuracy = JNumber 5,
                                             location_timestamp = JNumber 1700000000000\<rparr>\<rparr>,
            timestamp = 2, retryCount = 0\<rparr>] \<and>
   matching (a_story_at NaN)
      [\<lparr>pid = ''pending_2_b'', storyData = json_storyData (a_story_at NaN),
         timestamp = 2, retryCount = 0\<rparr>] = [] \<and>
   getPendingStories True (snd (addPendingStory True True 2 ''b'' 2 (a_story_at NegZero) None))
   = Inr [\<lparr>pid = ''pending_2_b'',
            storyData = \<lparr>title = ''here'', content = ''once upon a time'', category = ''Life'',
                         categoryId = ''3'',
                         location = Present \<lparr>latitude = JNumber 0, longitude = JNumber 80,
                                             accuracy = JNumber 5,
                                             location_timestamp = JNumber 1700000000000\<rparr>\<rparr>,
            timestamp = 2, retryCount = 0\<rparr>] \<and>
   matching (a_story_at NegZero)
      [\<lparr>pid = ''pending_2_b'', storyData = json_storyData (a_story_at NegZero),
         timestamp = 2, retryCount = 0\<rparr>] = [] \<and>
   fst (addPendingStory True True 2 ''b'' 3 (a_story ''u'')
          (Some [\<lparr>pid = ''pending_2_b'', storyData = json_storyData (a_story ''t''),
                  timestamp = 2, retryCount = 1\<rparr>]))
   = Inr ''pending_2_b''"
  by (simp add: addPendingStory_def getPendingStories_def matching_def digit_def decimal.simps
      a_story_def a_story_at_def json_storyData_def json_location_def deep_equal_def)

text \<open>
  C5, as amended. With a storage that works and story data whose numbers are all finite
  and not the negative zero, \<^verbatim>\<open>addPendingStory\<close> followed by
  \<^verbatim>\<open>getPendingStories\<close> gives the list of before with one new entry at its end; the
  new entry has story data deep-equal to the data given, count 0 and the id returned. So
  the list holds exactly one more entry with that story data and count 0 than before. The
  id returned is \<^verbatim>\<open>pending_\<close>, the reading of the clock, \<^verbatim>\<open>_\<close> and the random
  suffix; no other reading or suffix gives the same id, and exactly one entry of the list
  has the id when no entry had it before.
\<close>

theorem addPendingStory_then_list:
  assumes "plain_numbers data"
    and "getPendingStories True stored = Inr before"
    and "addPendingStory True True now random now2 data stored = (r, stored')"
  shows "\<exists>e. r = Inr (pid e) \<and>
           getPendingStories True stored' = Inr (before @ [e]) \<and>
           deep_equal data (storyData e) \<and> retryCount e = 0 \<and>
           length (matching data (before @ [e])) = length (matching data before) + 1 \<and>
           pid e = ''pending_'' @ decimal now @ ''_'' @ random \<and>
           (\<forall>now' random'. pid e = ''pending_'' @ decimal now' @ ''_'' @ random' \<longrightarrow>
               now' = now \<and> random' = random) \<and>
           (pid e \<notin> pid ` set before \<longrightarrow> filter (\<lambda>x. pid x = pid e) (before @ [e]) = [e])"
proof -
  let ?i = "''pending_'' @ decimal now @ ''_'' @ random"
  let ?e = "\<lparr>pid = ?i, storyData = json_storyData data, timestamp = now2, retryCount = 0\<rparr>"
  from assms(2,3) have r: "r = Inr ?i" and s: "stored' = Some (before @ [?e])"
    by (simp_all add: addPendingStory_def Let_def)
  from assms(1) have d: "deep_equal data (json_storyData data)" by (rule deep_equal_json)
  have inj: "\<forall>now' random'. ?i = ''pending_'' @ decimal now' @ ''_'' @ random' \<longrightarrow>
               now' = now \<and> random' = random"
    using pending_id_inj by blast
  have f: "?i \<notin> pid ` set before \<Longrightarrow> filter (\<lambda>x. pid x = ?i) before = []"
    by (rule filter_pid_absent)
  have m: "length (matching data (before @ [?e])) = length (matching data before) + 1"
    using d by (simp add: matching_def)
  have "r = Inr (pid ?e) \<and>
           getPendingStories True stored' = Inr (before @ [?e]) \<and>
           deep_equal data (storyData ?e) \<and> retryCount ?e = 0 \<and>
           length (matching data (before @ [?e])) = length (matching data before) + 1 \<and>
           pid ?e = ?i \<and>
           (\<forall>now' random'. pid ?e = ''pending_'' @ decimal now' @ ''_'' @ random' \<longrightarrow>
               now' = now \<and> random' = random) \<and>
           (pid ?e \<notin> pid ` set before \<longrightarrow> filter (\<lambda>x. pid x = pid ?e) (before @ [?e]) = [?e])"
    using r s d inj f m by (simp add: getPendingStories_def)
  then show ?thesis by (rule exI[of _ ?e])
qed

theorem addPendingStory_then_list_witness:
  "plain_numbers (a_story_at (Finite 7)) \<and>
   getPendingStories True None = Inr [] \<and>
   addPendingStory True True 17 ''q'' 18 (a_story_at (Finite 7)) None
     = (Inr ''pending_17_q'',
        Some [\<lparr>pid = ''pending_17_q'', storyData = json_storyData (a_story_at (Finite 7)),
                timestamp = 18, retryCount = 0\<rparr>]) \<and>
   deep_equal (a_story_at (Finite 7)) (json_storyData (a_story_at (Finite 7))) \<and>
   length (matching (a_story_at (Finite 7))
      [\<lparr>pid = ''pending_17_q'', storyData = json_storyData (a_story_at (Finite 7)),
         timestamp = 18, retryCount = 0\<rparr>]) = 1"
  using addPendingStory_then_list
    [of "a_story_at (Finite 7)" None "[]" 17 "''q''" 18 "Inr ''pending_17_q''"
        "Some [\<lparr>pid = ''pending_17_q'', storyData = json_storyData (a_story_at (Finite 7)),
                timestamp = 18, retryCount = 0\<rparr>]"]
  by (simp add: addPendingStory_def getPendingStories_def matching_def digit_def decimal.simps
      a_story_at_def json_storyData_def json_location_def deep_equal_def plain_numbers_def)

subsection \<open>Submitting a story\<close>

text \<open>
  Online, a remote write rejected with "permission-denied" stores nothing and throws
  \<^verbatim>\<open>FIRESTORE_ERROR\<close>.
\<close>

theorem createStory_any_failure_counterexample:
  "createStory (Rejected \<lparr>err_code = Some ''permission-denied'',
                          err_message = Some ''Missing or insufficient permissions.''\<rparr>)
      True True 17 ''q'' 18 (a_story ''t'') (initial None)
   = (Inl FIRESTORE_ERROR, initial None) \<and>
   \<not> isOffline (initial (None :: json_number StoryCreateData PendingStory list option))"
  by (simp add: createStory_def createStory_catch_def network_error_def isOffline_def initial_def)

text \<open>
  C3, as amended. Online, when the remote write fails with the code \<^verbatim>\<open>unavailable\<close>
  or with a message that includes \<^verbatim>\<open>network\<close>, and the storage works, the story
  (as it is read back from the storage) is added at the end of the pending list and the
  caller gets its id, which starts with
  \<^verbatim>\<open>pending_\<close> (the test that the caller makes at line 100 of
  src/screens/WriteScreen.tsx). When the remote write fails in any other way, nothing is
  stored and the caller gets \<^verbatim>\<open>FIRESTORE_ERROR\<close>.
\<close>

theorem createStory_fallback:
  assumes "\<not> isOffline sys"
    and "getPendingStories True (storage sys) = Inr before"
  shows "(network_error error \<longrightarrow>
           (\<exists>pendingId. startsWith pendingId ''pending_'' \<and>
              createStory (Rejected error) True True now random now2 data sys
                = (Inr pendingId,
                   sys\<lparr>storage := Some (before @
                      [\<lparr>pid = pendingId, storyData = json_storyData data,
                        timestamp = now2, retryCount = 0\<rparr>])\<rparr>))) \<and>
         (\<not> network_error error \<longrightarrow>
            createStory (Rejected error) get_ok set_ok now random now2 data sys
              = (Inl FIRESTORE_ERROR, sys))"
proof -
  let ?i = "''pending_'' @ decimal now @ ''_'' @ random"
  have p: "startsWith ?i ''pending_''" by (rule startsWith_append)
  have a: "network_error error \<Longrightarrow>
           createStory (Rejected error) True True now random now2 data sys
                = (Inr ?i,
                   sys\<lparr>storage := Some (before @
                      [\<lparr>pid = ?i, storyData = json_storyData data,
                        timestamp = now2, retryCount = 0\<rparr>])\<rparr>)"
    using assms
    by (simp add: createStory_def createStory_catch_def network_error_def addPendingStory_def Let_def)
  have b: "\<not> network_error error \<Longrightarrow>
            createStory (Rejected error) get_ok set_ok now random now2 data sys
              = (Inl FIRESTORE_ERROR, sys)"
    using assms(1)
    by (simp add: createStory_def createStory_catch_def network_error_def)
  show ?thesis using a b p by blast
qed

theorem createStory_fallback_witness:
  "\<not> isOffline (initial (None :: json_number StoryCreateData PendingStory list option)) \<and>
   network_error \<lparr>err_code = Some ''unavailable'', err_message = None\<rparr> \<and>
   \<not> network_error \<lparr>err_code = Some ''permission-denied'',
                      err_message = Some ''Missing or insufficient permissions.''\<rparr> \<and>
   (\<exists>pendingId. startsWith pendingId ''pending_'' \<and>
      createStory (Rejected \<lparr>err_code = Some ''unavailable'', err_message = None\<rparr>)
          True True 17 ''q'' 18 (a_story ''t'') (initial None)
        = (Inr pendingId, (initial None)\<lparr>storage := Some
              [\<lparr>pid = pendingId, storyData = json_storyData (a_story ''t''),
                timestamp = 18, retryCount = 0\<rparr>]\<rparr>))"
  using createStory_fallback
    [of "initial (None :: json_number StoryCreateData PendingStory list option)" "[]"
      "\<lparr>err_code = Some ''unavailable'', err_message = None\<rparr>" 17 "''q''" 18
      "a_story ''t''" True True]
  by (simp add: isOffline_def initial_def getPendingStories_def network_error_def)

subsection \<open>The status values\<close>

text \<open>
  The status query copies the two flags read by the platform probe: a reading that is
  "not connected, reachable" is returned as it is.
\<close>

theorem query_invariant_counterexample:
  "getNetworkStatus (Fulfilled \<lparr>ni_isConnected = Some False, ni_isInternetReachable = Some True\<rparr>)
     = Inr \<lparr>isConnected = False, isInternetReachable = True\<rparr> \<and>
   \<not> status_ok \<lparr>isConnected = False, isInternetReachable = True\<rparr>"
  by (simp add: getNetworkStatus_def or_false_def status_ok_def)

text \<open>
  C8, as amended. In every run of the service from its initial state, every status given
  to a listener (at its subscription or at a notification) has "reachable" imply
  "connected". A status returned by the status query has it whenever the reading of the
  platform probe has it; when the probe fails the status is "not connected, not
  reachable".
\<close>

theorem status_invariant:
  "(\<forall>d \<in> set (delivered (run es (initial stored))). status_ok (snd d)) \<and>
   (\<forall>s. getNetworkStatus fetched = Inr s \<longrightarrow>
        (\<forall>netInfo. fetched = Fulfilled netInfo \<longrightarrow>
           ni_isInternetReachable netInfo = Some True \<longrightarrow> ni_isConnected netInfo = Some True) \<longrightarrow>
        status_ok s)"
proof
  have "\<forall>d \<in> set (delivered (initial stored)). status_ok (snd d)"
    by (simp add: initial_def)
  then show "\<forall>d \<in> set (delivered (run es (initial stored))). status_ok (snd d)"
    by (rule delivered_ok_run)
next
  show "\<forall>s. getNetworkStatus fetched = Inr s \<longrightarrow>
        (\<forall>netInfo. fetched = Fulfilled netInfo \<longrightarrow>
           ni_isInternetReachable netInfo = Some True \<longrightarrow> ni_isConnected netInfo = Some True) \<longrightarrow>
        status_ok s"
  proof (cases fetched)
    case (Fulfilled netInfo)
    then show ?thesis
      by (cases "ni_isInternetReachable netInfo")
         (auto simp: getNetworkStatus_def or_false_def status_ok_def)
  next
    case (Rejected error)
    then show ?thesis by (auto simp: getNetworkStatus_def status_ok_def)
  qed
qed

theorem status_invariant_witness:
  "delivered (run [SubscribeCall 1,
                   NetInfoChange \<lparr>ni_isConnected = Some False, ni_isInternetReachable = None\<rparr>]
               (initial (None :: string PendingStory list option)))
     = [(1, \<lparr>isConnected = True, isInternetReachable = True\<rparr>),
        (1, \<lparr>isConnected = False, isInternetReachable = False\<rparr>)] \<and>
   status_ok \<lparr>isConnected = True, isInternetReachable = True\<rparr> \<and>
   status_ok \<lparr>isConnected = False, isInternetReachable = False\<rparr> \<and>
   getNetworkStatus (Fulfilled \<lparr>ni_isConnected = Some True, ni_isInternetReachable = Some True\<rparr>)
     = Inr \<lparr>isConnected = True, isInternetReachable = True\<rparr>"
  using status_invariant
    [of "[SubscribeCall 1,
          NetInfoChange \<lparr>ni_isConnected = Some False, ni_isInternetReachable = None\<rparr>]"
        "None :: string PendingStory list option"
        "Fulfilled \<lparr>ni_isConnected = Some True, ni_isInternetReachable = Some True\<rparr>"]
  by (simp add: initial_def subscribeToNetworkStatus_def netInfoListener_def
      notifyNetworkListeners_def current_status_def nullish_false_def Let_def
      getNetworkStatus_def or_false_def)

subsection \<open>Subscriptions\<close>

text \<open>
  After the same listener is subscribed twice, one call of the handle leaves one
  registration, and a second call of the same handle removes it.
\<close>

theorem unsubscribe_twice_counterexample:
  "networkListeners (run [SubscribeCall 7, SubscribeCall 7, UnsubscribeCall 7]
      (initial (None :: string PendingStory list option))) = [7] \<and>
   networkListeners (run [SubscribeCall 7, SubscribeCall 7, UnsubscribeCall 7, UnsubscribeCall 7]
      (initial (None :: string PendingStory list option))) = []"
  by (simp add: initial_def subscribeToNetworkStatus_def unsubscribe_def Let_def splice1_def)

text \<open>
  C9, as amended. \<^verbatim>\<open>subscribeToNetworkStatus\<close> calls the listener once, at once,
  with the status of that moment. In every run that does not call the handle of the
  listener, the listener stays registered, and the next change of state that the
  platform reports (a call of the callback of line 35) calls it with the new status. The
  handle removes the first registration of the listener. When the listener is registered
  at most once, a second call of the handle changes nothing, and in every run after the
  first call that does not subscribe the listener again, it is not called any more.
\<close>

theorem subscribe_contract:
  "delivered (subscribeToNetworkStatus l sys) = delivered sys @ [(l, current_status sys)] \<and>
   (UnsubscribeCall l \<notin> set es \<longrightarrow>
      l \<in> set (networkListeners (run es (subscribeToNetworkStatus l sys))) \<and>
      (l, current_status (step (NetInfoChange state) (run es (subscribeToNetworkStatus l sys))))
        \<in> set (drop (length (delivered (run es (subscribeToNetworkStatus l sys))))
                 (delivered (step (NetInfoChange state) (run es (subscribeToNetworkStatus l sys)))))) \<and>
   networkListeners (unsubscribe l sys') = remove1 l (networkListeners sys') \<and>
   (count_list (networkListeners sys') l \<le> 1 \<longrightarrow>
      unsubscribe l (unsubscribe l sys') = unsubscribe l sys' \<and>
      (SubscribeCall l \<notin> set es' \<longrightarrow>
         filter (\<lambda>d. fst d = l) (delivered (run es' (unsubscribe l sys')))
           = filter (\<lambda>d. fst d = l) (delivered sys')))"
proof (intro conjI impI)
  show "delivered (subscribeToNetworkStatus l sys) = delivered sys @ [(l, current_status sys)]"
    by (rule delivered_subscribe)
next
  assume "UnsubscribeCall l \<notin> set es"
  moreover have "l \<in> set (networkListeners (subscribeToNetworkStatus l sys))"
    by (simp add: listeners_subscribe)
  ultimately show "l \<in> set (networkListeners (run es (subscribeToNetworkStatus l sys)))"
    by (intro listener_kept_run)
  then show "(l, current_status (step (NetInfoChange state) (run es (subscribeToNetworkStatus l sys))))
        \<in> set (drop (length (delivered (run es (subscribeToNetworkStatus l sys))))
                 (delivered (step (NetInfoChange state) (run es (subscribeToNetworkStatus l sys)))))"
    by (simp add: delivered_netInfoListener)
next
  show "networkListeners (unsubscribe l sys') = remove1 l (networkListeners sys')"
    by (rule listeners_unsubscribe)
next
  assume c: "count_list (networkListeners sys') l \<le> 1"
  then have gone: "l \<notin> set (networkListeners (unsubscribe l sys'))"
    by (simp add: listeners_unsubscribe remove1_count_le1)
  then show "unsubscribe l (unsubscribe l sys') = unsubscribe l sys'"
    by (rule unsubscribe_absent)
  assume "SubscribeCall l \<notin> set es'"
  with gone have "filter (\<lambda>d. fst d = l) (delivered (run es' (unsubscribe l sys')))
           = filter (\<lambda>d. fst d = l) (delivered (unsubscribe l sys'))"
    by (rule listener_absent_run)
  then show "filter (\<lambda>d. fst d = l) (delivered (run es' (unsubscribe l sys')))
           = filter (\<lambda>d. fst d = l) (delivered sys')"
    by (simp add: delivered_unsubscribe)
qed

theorem subscribe_contract_witness:
  "UnsubscribeCall 7 \<notin> set [ForceSync] \<and>
   count_list (networkListeners
      (subscribeToNetworkStatus 7 (initial (None :: string PendingStory list option)))) 7 \<le> 1 \<and>
   SubscribeCall 7 \<notin>
     set [NetInfoChange \<lparr>ni_isConnected = Some False, ni_isInternetReachable = None\<rparr>] \<and>
   delivered (subscribeToNetworkStatus 7 (initial (None :: string PendingStory list option)))
     = [(7, \<lparr>isConnected = True, isInternetReachable = True\<rparr>)] \<and>
   delivered (run [ForceSync,
                   NetInfoChange \<lparr>ni_isConnected = Some False, ni_isInternetReachable = None\<rparr>]
      (subscribeToNetworkStatus 7 (initial (None :: string PendingStory list option))))
     = [(7, \<lparr>isConnected = True, isInternetReachable = True\<rparr>),
        (7, \<lparr>isConnected = False, isInternetReachable = False\<rparr>)] \<and>
   unsubscribe 7 (unsubscribe 7
      (subscribeToNetworkStatus 7 (initial (None :: string PendingStory list option))))
     = unsubscribe 7
      (subscribeToNetworkStatus 7 (initial (None :: string PendingStory list option))) \<and>
   delivered (run [NetInfoChange \<lparr>ni_isConnected = Some False, ni_isInternetReachable = None\<rparr>]
      (unsubscribe 7
         (subscribeToNetworkStatus 7 (initial (None :: string PendingStory list option)))))
     = [(7, \<lparr>isConnected = True, isInternetReachable = True\<rparr>)]"
  using subscribe_contract
    [of 7 "initial (None :: string PendingStory list option)" "[ForceSync]"
        "\<lparr>ni_isConnected = Some False, ni_isInternetReachable = None\<rparr>"
        "subscribeToNetworkStatus 7 (initial (None :: string PendingStory list option))"
        "[NetInfoChange \<lparr>ni_isConnected = Some False, ni_isInternetReachable = None\<rparr>]"]
  by (simp add: initial_def subscribeToNetworkStatus_def netInfoListener_def
      notifyNetworkListeners_def current_status_def nullish_false_def Let_def
      unsubscribe_def splice1_def forceSyncPendingStories_call_def syncPendingStories_call_def)

subsection \<open>The retry ceiling\<close>




subsection \<open>Failures inside a drain\<close>

text \<open>
  A drain whose only entry is written remotely and a drain whose only entry fails return
  the same thing to the caller, which is no value: what happened to the entry is not in
  it.
\<close>

theorem drain_summary_counterexample:
  "drain_result (drains (run ([ForceSync, ListSettles 0 True] @
       alone 0 0 \<lparr>pid = ''a'', storyData = ''story'', timestamp = 1, retryCount = 0\<rparr> True)
     (initial (Some [\<lparr>pid = ''a'', storyData = ''story'', timestamp = 1, retryCount = 0\<rparr>]))) ! 0)
     = Some (Inr ()) \<and>
   storage (run ([ForceSync, ListSettles 0 True] @
       alone 0 0 \<lparr>pid = ''a'', storyData = ''story'', timestamp = 1, retryCount = 0\<rparr> True)
     (initial (Some [\<lparr>pid = ''a'', storyData = ''story'', timestamp = 1, retryCount = 0\<rparr>])))
     = Some [] \<and>
   drain_result (drains (run ([ForceSync, ListSettles 0 True] @
       alone 0 0 \<lparr>pid = ''a'', storyData = ''story'', timestamp = 1, retryCount = 0\<rparr> False)
     (initial (Some [\<lparr>pid = ''a'', storyData = ''story'', timestamp = 1, retryCount = 0\<rparr>]))) ! 0)
     = Some (Inr ()) \<and>
   storage (run ([ForceSync, ListSettles 0 True] @
       alone 0 0 \<lparr>pid = ''a'', storyData = ''story'', timestamp = 1, retryCount = 0\<rparr> False)
     (initial (Some [\<lparr>pid = ''a'', storyData = ''story'', timestamp = 1, retryCount = 0\<rparr>])))
     = Some [\<lparr>pid = ''a'', storyData = ''story'', timestamp = 1, retryCount = 1\<rparr>]"
  by (simp add: alone_def drain_result_def initial_def MAX_RETRY_COUNT_def forceSyncPendingStories_call_def
      syncPendingStories_call_def drain_start_def getPendingStories_def callback_start_def)

text \<open>
  C6, as amended. When the read of a drain is fulfilled, \<^verbatim>\<open>addDoc\<close> is called for
  every entry read with a count below \<open>MAX_RETRY_COUNT\<close> before any outcome is known,
  and these calls stay made whatever happens next. Whatever the outcomes and their order,
  the drain never throws; and once five awaits of every callback have settled, it has
  returned. What it returns is no value: there is no summary of the outcomes.
\<close>

theorem drain_isolates_failures:
  assumes "d < length (drains sys)" and "drains sys ! d = AwaitList"
    and "getPendingStories True (storage sys) = Inr xs"
  shows "addDoc_calls (step (ListSettles d True) sys)
           = addDoc_calls sys @ filter (\<lambda>p. retryCount p < MAX_RETRY_COUNT) xs \<and>
         set (filter (\<lambda>p. retryCount p < MAX_RETRY_COUNT) xs)
           \<subseteq> set (addDoc_calls (run es (step (ListSettles d True) sys))) \<and>
         (\<forall>e. drain_result (drains (run es (step (ListSettles d True) sys)) ! d) \<noteq> Some (Inl e)) \<and>
         ((\<forall>i < length xs. 5 \<le> settles d i es) \<longrightarrow>
            drain_result (drains (run es (step (ListSettles d True) sys)) ! d) = Some (Inr ()))"
proof -
  let ?sys1 = "step (ListSettles d True) sys"
  let ?ts = "map (\<lambda>p. fst (callback_start p)) xs"
  have s1: "?sys1 =
           sys\<lparr>addDoc_calls := addDoc_calls sys @ filter (\<lambda>p. retryCount p < MAX_RETRY_COUNT) xs,
               drains := (drains sys)[d := if xs = [] then Returned else AwaitAll ?ts]\<rparr>"
    using assms by (rule step_ListSettles)
  then have calls: "addDoc_calls ?sys1
           = addDoc_calls sys @ filter (\<lambda>p. retryCount p < MAX_RETRY_COUNT) xs"
    by simp
  obtain cs where "addDoc_calls (run es ?sys1) = addDoc_calls ?sys1 @ cs"
    using calls_run_grow by blast
  with calls have sub: "set (filter (\<lambda>p. retryCount p < MAX_RETRY_COUNT) xs)
           \<subseteq> set (addDoc_calls (run es ?sys1))"
    by auto
  have res: "(\<forall>e. drain_result (drains (run es ?sys1) ! d) \<noteq> Some (Inl e)) \<and>
         ((\<forall>i < length xs. 5 \<le> settles d i es) \<longrightarrow>
            drain_result (drains (run es ?sys1) ! d) = Some (Inr ()))"
  proof (cases "xs = []")
    case True
    with s1 assms(1) have "d < length (drains ?sys1)" and "drains ?sys1 ! d = Returned"
      by simp_all
    then have "drains (run es ?sys1) ! d = Returned" using returned_run by blast
    then show ?thesis by (simp add: drain_result_def)
  next
    case False
    with s1 assms(1) have "d < length (drains ?sys1)" and "drains ?sys1 ! d = AwaitAll ?ts"
      by simp_all
    from drain_run[OF this, of es]
    obtain ts' where b: "drains (run es ?sys1) ! d = AwaitAll ts'"
      and c: "length ts' = length xs"
      and r: "\<forall>i < length xs. rank (ts' ! i) \<le> rank (?ts ! i) - settles d i es"
      by auto
    have "list_all (\<lambda>t. t = Settled) ts'" if all: "\<forall>i < length xs. 5 \<le> settles d i es"
    proof (rule all_settled, intro allI impI)
      fix i assume "i < length ts'"
      with c have i: "i < length xs" by simp
      with r have "rank (ts' ! i) \<le> rank (?ts ! i) - settles d i es" by simp
      moreover have "rank (?ts ! i) \<le> 5" by (rule rank_le_5)
      moreover from all i have "5 \<le> settles d i es" by simp
      ultimately show "rank (ts' ! i) = 0" by arith
    qed
    with b show ?thesis by (simp add: drain_result_def)
  qed
  from calls sub res show ?thesis by simp
qed

theorem drain_isolates_failures_witness:
  "drains (step ForceSync (initial (Some [entry ''a'' 0, entry ''b'' 1]))) ! 0 = AwaitList \<and>
   getPendingStories True (storage (step ForceSync (initial (Some [entry ''a'' 0, entry ''b'' 1]))))
     = Inr [entry ''a'' 0, entry ''b'' 1] \<and>
   5 \<le> settles 0 0 [CallbackSettles 0 0 False, CallbackSettles 0 1 True, CallbackSettles 0 0 False,
                       CallbackSettles 0 1 True, CallbackSettles 0 0 True, CallbackSettles 0 1 True,
                       CallbackSettles 0 0 True, CallbackSettles 0 1 True, CallbackSettles 0 0 True,
                       CallbackSettles 0 1 True] \<and>
   5 \<le> settles 0 1 [CallbackSettles 0 0 False, CallbackSettles 0 1 True, CallbackSettles 0 0 False,
                       CallbackSettles 0 1 True, CallbackSettles 0 0 True, CallbackSettles 0 1 True,
                       CallbackSettles 0 0 True, CallbackSettles 0 1 True, CallbackSettles 0 0 True,
                       CallbackSettles 0 1 True] \<and>
   addDoc_calls (step (ListSettles 0 True)
                   (step ForceSync (initial (Some [entry ''a'' 0, entry ''b'' 1]))))
     = [entry ''a'' 0, entry ''b'' 1] \<and>
   drain_result (drains (run [CallbackSettles 0 0 False, CallbackSettles 0 1 True, CallbackSettles 0 0 False,
                         CallbackSettles 0 1 True, CallbackSettles 0 0 True, CallbackSettles 0 1 True,
                         CallbackSettles 0 0 True, CallbackSettles 0 1 True, CallbackSettles 0 0 True,
                         CallbackSettles 0 1 True]
        (step (ListSettles 0 True)
           (step ForceSync (initial (Some [entry ''a'' 0, entry ''b'' 1]))))) ! 0)
     = Some (Inr ())"
  using drain_isolates_failures
    [of 0 "step ForceSync (initial (Some [entry ''a'' 0, entry ''b'' 1]))"
        "[entry ''a'' 0, entry ''b'' 1]"
        "[CallbackSettles 0 0 False, CallbackSettles 0 1 True, CallbackSettles 0 0 False,
                         CallbackSettles 0 1 True, CallbackSettles 0 0 True, CallbackSettles 0 1 True,
                         CallbackSettles 0 0 True, CallbackSettles 0 1 True, CallbackSettles 0 0 True,
                         CallbackSettles 0 1 True]"]
  by (simp add: entry_def drain_result_def initial_def MAX_RETRY_COUNT_def forceSyncPendingStories_call_def
      syncPendingStories_call_def drain_start_def getPendingStories_def callback_start_def)

subsection \<open>Overlapping drains\<close>

text \<open>
  The service starts offline with one entry stored and comes back online, which starts a
  drain; a forced drain is asked for while the first is under way. Both read the same
  entry and both call \<^verbatim>\<open>addDoc\<close> for it.
\<close>

theorem overlapping_drains_counterexample:
  "addDoc_calls
     (run [FetchSettles (Fulfilled
             \<lparr>ni_isConnected = Some False, ni_isInternetReachable = Some False\<rparr>),
           NetInfoChange \<lparr>ni_isConnected = Some True, ni_isInternetReachable = Some True\<rparr>,
           ForceSync, ListSettles 0 True, ListSettles 1 True]
        (initial (Some [\<lparr>pid = ''a'', storyData = ''story'', timestamp = 1, retryCount = 0\<rparr>])))
   = [\<lparr>pid = ''a'', storyData = ''story'', timestamp = 1, retryCount = 0\<rparr>,
      \<lparr>pid = ''a'', storyData = ''story'', timestamp = 1, retryCount = 0\<rparr>]"
  by (simp add: initial_def MAX_RETRY_COUNT_def forceSyncPendingStories_call_def
      syncPendingStories_call_def drain_start_def getPendingStories_def callback_start_def
      initializeNetworkListener_def netInfoListener_def
      notifyNetworkListeners_def nullish_false_def Let_def)

text \<open>
  C2, as amended. \<^verbatim>\<open>forceSyncPendingStories\<close> starts a drain like any other, whatever
  drains are under way. Each drain calls \<^verbatim>\<open>addDoc\<close> when its read settles, for
  entries of the list it read, and at most once for each id when the ids of that list are
  distinct; no other event calls \<^verbatim>\<open>addDoc\<close>.
\<close>

theorem drain_attempts_per_call:
  "step ForceSync sys = syncPendingStories_call sys \<and>
   drains (step ForceSync sys) = drains sys @ [AwaitList] \<and>
   (d < length (drains sys) \<longrightarrow> drains sys ! d = AwaitList \<longrightarrow>
    getPendingStories True (storage sys) = Inr xs \<longrightarrow> distinct (map pid xs) \<longrightarrow>
      (\<exists>cs. addDoc_calls (step (ListSettles d True) sys) = addDoc_calls sys @ cs \<and>
            set cs \<subseteq> set xs \<and>
            (\<forall>i. length (filter (\<lambda>p. pid p = i) cs) \<le> 1))) \<and>
   ((\<forall>d ok. ListSettles d ok \<notin> set es) \<longrightarrow> addDoc_calls (run es sys) = addDoc_calls sys)"
proof (intro conjI impI)
  show "step ForceSync sys = syncPendingStories_call sys"
    by (simp add: forceSyncPendingStories_call_def)
  show "drains (step ForceSync sys) = drains sys @ [AwaitList]"
    by (simp add: forceSyncPendingStories_call_def syncPendingStories_call_def)
next
  assume a: "d < length (drains sys)" "drains sys ! d = AwaitList"
    "getPendingStories True (storage sys) = Inr xs" and dist: "distinct (map pid xs)"
  let ?cs = "filter (\<lambda>p. retryCount p < MAX_RETRY_COUNT) xs"
  from step_ListSettles[OF a]
  have "addDoc_calls (step (ListSettles d True) sys) = addDoc_calls sys @ ?cs" by simp
  moreover have "set ?cs \<subseteq> set xs" by auto
  moreover from dist have "\<forall>i. length (filter (\<lambda>p. pid p = i) ?cs) \<le> 1"
    by (intro allI once_per_id)
  ultimately show "\<exists>cs. addDoc_calls (step (ListSettles d True) sys) = addDoc_calls sys @ cs \<and>
            set cs \<subseteq> set xs \<and> (\<forall>i. length (filter (\<lambda>p. pid p = i) cs) \<le> 1)"
    by blast
next
  assume "\<forall>d ok. ListSettles d ok \<notin> set es"
  then show "addDoc_calls (run es sys) = addDoc_calls sys" by (rule calls_run_other)
qed

theorem drain_attempts_per_call_witness:
  "drains (step ForceSync (initial (Some [entry ''a'' 0, entry ''b'' 3]))) ! 0 = AwaitList \<and>
   getPendingStories True (storage (step ForceSync (initial (Some [entry ''a'' 0, entry ''b'' 3]))))
     = Inr [entry ''a'' 0, entry ''b'' 3] \<and>
   distinct (map pid [entry ''a'' 0, entry ''b'' 3]) \<and>
   addDoc_calls (step (ListSettles 0 True)
                   (step ForceSync (initial (Some [entry ''a'' 0, entry ''b'' 3]))))
     = [entry ''a'' 0] \<and>
   (\<forall>d ok. ListSettles d ok \<notin> set [CallbackSettles 0 0 True, ForceSync]) \<and>
   addDoc_calls (run [CallbackSettles 0 0 True, ForceSync]
                   (step ForceSync (initial (Some [entry ''a'' 0, entry ''b'' 3])))) = []"
  using drain_attempts_per_call
    [of "step ForceSync (initial (Some [entry ''a'' 0, entry ''b'' 3]))" 0
        "[entry ''a'' 0, entry ''b'' 3]" "[CallbackSettles 0 0 True, ForceSync]"]
  by (simp add: entry_def initial_def MAX_RETRY_COUNT_def forceSyncPendingStories_call_def
      syncPendingStories_call_def drain_start_def getPendingStories_def callback_start_def)

subsection \<open>The scenario with counts 0, 2 and 3\<close>

text \<open>
  With three entries of counts 0, 2 and 3 stored, take a drain in which the remote write
  fails for the first and succeeds for the second. When each of the three callbacks runs
  to its end before the next one starts (the six orders of three runs of \<open>alone\<close>), the
  drain leaves exactly the first entry stored, with count 1; \<^verbatim>\<open>addDoc\<close> is called for
  the first and the second entry only, and the drain returns.
\<close>

lemma scenario_one_after_the_other:
  assumes "storage sys = Some [e1, e2, e3]"
    and "retryCount e1 = 0" and "retryCount e2 = 2" and "retryCount e3 = 3"
    and "distinct [pid e1, pid e2, pid e3]"
    and "d = length (drains sys)"
    and "ord \<in> {[0, 1, 2], [0, 2, 1], [1, 0, 2], [1, 2, 0], [2, 0, 1], [2, 1, 0]}"
    and "final = run ([ForceSync, ListSettles d True] @
                      concat (map (\<lambda>i. alone d i ([e1, e2, e3] ! i) ([False, True, third] ! i)) ord))
                   sys"
  shows "storage final = Some [e1\<lparr>retryCount := 1\<rparr>] \<and>
         addDoc_calls final = addDoc_calls sys @ [e1, e2] \<and>
         drain_result (drains final ! d) = Some (Inr ())"
proof -
  note defs = alone_def MAX_RETRY_COUNT_def forceSyncPendingStories_call_def
      syncPendingStories_call_def drain_start_def getPendingStories_def callback_start_def
      drain_result_def
  from assms(7) consider "ord = [0, 1, 2]" | "ord = [0, 2, 1]" | "ord = [1, 0, 2]"
    | "ord = [1, 2, 0]" | "ord = [2, 0, 1]" | "ord = [2, 1, 0]"
    by auto
  then show ?thesis
  proof cases
    case 1
    with assms(1-6,8) show ?thesis by (simp add: defs)
  next
    case 2
    with assms(1-6,8) show ?thesis by (simp add: defs)
  next
    case 3
    with assms(1-6,8) show ?thesis by (simp add: defs)
  next
    case 4
    with assms(1-6,8) show ?thesis by (simp add: defs)
  next
    case 5
    with assms(1-6,8) show ?thesis by (simp add: defs)
  next
    case 6
    with assms(1-6,8) show ?thesis by (simp add: defs)
  qed
qed

lemma scenario_one_after_the_other_example:
  "storage (run ([ForceSync, ListSettles 0 True] @
                 alone 0 2 (entry ''c'' 3) False @ alone 0 0 (entry ''a'' 0) False @
                 alone 0 1 (entry ''b'' 2) True)
       (initial (Some [entry ''a'' 0, entry ''b'' 2, entry ''c'' 3])))
     = Some [entry ''a'' 1] \<and>
   addDoc_calls (run ([ForceSync, ListSettles 0 True] @
                 alone 0 2 (entry ''c'' 3) False @ alone 0 0 (entry ''a'' 0) False @
                 alone 0 1 (entry ''b'' 2) True)
       (initial (Some [entry ''a'' 0, entry ''b'' 2, entry ''c'' 3])))
     = [entry ''a'' 0, entry ''b'' 2]"
  using scenario_one_after_the_other
    [of "initial (Some [entry ''a'' 0, entry ''b'' 2, entry ''c'' 3])"
        "entry ''a'' 0" "entry ''b'' 2" "entry ''c'' 3" 0 "[2, 0, 1]"
        "run ([ForceSync, ListSettles 0 True] @
                 alone 0 2 (entry ''c'' 3) False @ alone 0 0 (entry ''a'' 0) False @
                 alone 0 1 (entry ''b'' 2) True)
           (initial (Some [entry ''a'' 0, entry ''b'' 2, entry ''c'' 3]))" False]
  by (simp add: entry_def alone_def drain_result_def initial_def MAX_RETRY_COUNT_def forceSyncPendingStories_call_def
      syncPendingStories_call_def drain_start_def getPendingStories_def callback_start_def)

text \<open>
  C4. The claim is that such a drain leaves the first entry stored with count 1, removes
  the second, removes the third with no remote write, and leaves one entry. The code
  does not do this in every run. In the run below the callback of the third entry removes
  it; then the remote write of the second entry succeeds and that of the first fails at
  about the same time, and both callbacks read the list (lines 165 and 248) before either
  writes it (lines 167 and 252). The callback of the second entry writes the list
  without the second entry, as line 241 means to; the callback of the first entry then
  writes the list it read, with its own count incremented and the second entry still in
  it. The drain returns with two entries stored: the second entry was written remotely
  and is still pending.
\<close>

theorem scenario_lost_update:
  "storage (run [ForceSync, ListSettles 0 True,
                 CallbackSettles 0 2 True, CallbackSettles 0 2 True,
                 CallbackSettles 0 1 True, CallbackSettles 0 0 False,
                 CallbackSettles 0 1 True, CallbackSettles 0 0 True,
                 CallbackSettles 0 1 True, CallbackSettles 0 0 True]
             (initial (Some [\<lparr>pid = ''a'', storyData = ''s1'', timestamp = 1, retryCount = 0\<rparr>,
                             \<lparr>pid = ''b'', storyData = ''s2'', timestamp = 2, retryCount = 2\<rparr>,
                             \<lparr>pid = ''c'', storyData = ''s3'', timestamp = 3, retryCount = 3\<rparr>])))
     = Some [\<lparr>pid = ''a'', storyData = ''s1'', timestamp = 1, retryCount = 1\<rparr>,
             \<lparr>pid = ''b'', storyData = ''s2'', timestamp = 2, retryCount = 2\<rparr>] \<and>
   drain_result (drains (run [ForceSync, ListSettles 0 True,
                 CallbackSettles 0 2 True, CallbackSettles 0 2 True,
                 CallbackSettles 0 1 True, CallbackSettles 0 0 False,
                 CallbackSettles 0 1 True, CallbackSettles 0 0 True,
                 CallbackSettles 0 1 True, CallbackSettles 0 0 True]
             (initial (Some [\<lparr>pid = ''a'', storyData = ''s1'', timestamp = 1, retryCount = 0\<rparr>,
                             \<lparr>pid = ''b'', storyData = ''s2'', timestamp = 2, retryCount = 2\<rparr>,
                             \<lparr>pid = ''c'', storyData = ''s3'', timestamp = 3, retryCount = 3\<rparr>]))) ! 0)
     = Some (Inr ()) \<and>
   addDoc_calls (run [ForceSync, ListSettles 0 True,
                 CallbackSettles 0 2 True, CallbackSettles 0 2 True,
                 CallbackSettles 0 1 True, CallbackSettles 0 0 False,
                 CallbackSettles 0 1 True, CallbackSettles 0 0 True,
                 CallbackSettles 0 1 True, CallbackSettles 0 0 True]
             (initial (Some [\<lparr>pid = ''a'', storyData = ''s1'', timestamp = 1, retryCount = 0\<rparr>,
                             \<lparr>pid = ''b'', storyData = ''s2'', timestamp = 2, retryCount = 2\<rparr>,
                             \<lparr>pid = ''c'', storyData = ''s3'', timestamp = 3, retryCount = 3\<rparr>])))
     = [\<lparr>pid = ''a'', storyData = ''s1'', timestamp = 1, retryCount = 0\<rparr>,
        \<lparr>pid = ''b'', storyData = ''s2'', timestamp = 2, retryCount = 2\<rparr>]"
  by (simp add: initial_def MAX_RETRY_COUNT_def forceSyncPendingStories_call_def
      syncPendingStories_call_def drain_start_def getPendingStories_def callback_start_def
      drain_result_def)

end
